theory Spec2Isabelle
  imports Complex_Main
begin

section \<open>STA/LTA onset functions of QMigrate.signal.onset.staltaonset\<close>

text \<open>
  A shallow embedding of \<^verbatim>\<open>src/QMigrate/signal/onset/staltaonset.py\<close>.

  Conventions of the embedding:
  \<^item> a one-dimensional numpy array of doubles is a \<open>real list\<close>, a two-dimensional one
    is the list of its rows (\<open>real list list\<close>); arithmetic on samples is that of the
    real numbers, so rounding, overflow, NaN and infinities of IEEE doubles are outside
    the model;
  \<^item> every exception the code can raise is a value \<open>Inl e\<close> of the result type
    \<open>error + 'a\<close>;
  \<^item> the routines of scipy and obspy that the module calls are not part of the
    repository; they are a parameter of the model (the record \<open>lib\<close>);
  \<^item> the object state of the onset classes is a record that is passed explicitly.
\<close>

subsection \<open>Errors\<close>

text \<open>
  The Python exceptions that the modelled code paths raise. \<open>InvalidFilterSpec\<close> is the
  condition named by the specification; no statement of the source raises it.
\<close>

datatype error =
    ValueError
  | IndexError
  | ZeroDivisionError
  | AttributeError
  | InvalidFilterSpec

definition bind_res :: "error + 'a \<Rightarrow> ('a \<Rightarrow> error + 'b) \<Rightarrow> error + 'b" where
  "bind_res m f = (case m of Inl e \<Rightarrow> Inl e | Inr x \<Rightarrow> f x)"

text \<open>A loop over the channels stops at the first exception.\<close>

fun mapM_res :: "('a \<Rightarrow> error + 'b) \<Rightarrow> 'a list \<Rightarrow> error + 'b list" where
  "mapM_res f [] = Inr []"
| "mapM_res f (x # xs) =
     (case f x of
        Inl e \<Rightarrow> Inl e
      | Inr y \<Rightarrow> (case mapM_res f xs of Inl e \<Rightarrow> Inl e | Inr ys \<Rightarrow> Inr (y # ys)))"

subsection \<open>Python numbers\<close>

text \<open>\<^verbatim>\<open>int(x)\<close> truncates towards zero.\<close>

definition py_int :: "real \<Rightarrow> int" where
  "py_int x = (if 0 \<le> x then \<lfloor>x\<rfloor> else \<lceil>x\<rceil>)"

text \<open>\<^verbatim>\<open>round(x)\<close> of Python 3 rounds to the nearest integer, ties to the even one.\<close>

definition py_round :: "real \<Rightarrow> int" where
  "py_round x =
     (let f = \<lfloor>x\<rfloor>; d = x - of_int f
      in if d < 1 / 2 then f
         else if 1 / 2 < d then f + 1
         else if even f then f else f + 1)"

text \<open>\<^verbatim>\<open>np.finfo(0.0).tiny\<close>, the smallest positive normal double.\<close>

definition dtiny :: real where
  "dtiny = 1 / 2 ^ 1022"

subsection \<open>numpy slices and broadcasting on one axis\<close>

text \<open>
  A slice bound \<open>k\<close> on an axis of length \<open>n\<close>: a negative bound counts from the end,
  and the result is clipped to \<open>0..n\<close>. \<open>None\<close> is an omitted bound.
\<close>

definition norm_bound :: "nat \<Rightarrow> int \<Rightarrow> nat" where
  "norm_bound n k = (if k < 0 then nat (k + int n) else min (nat k) n)"

definition slice_bounds :: "nat \<Rightarrow> int option \<Rightarrow> int option \<Rightarrow> nat \<times> nat" where
  "slice_bounds n lo hi =
     (let s = (case lo of None \<Rightarrow> 0 | Some k \<Rightarrow> norm_bound n k);
          e = (case hi of None \<Rightarrow> n | Some k \<Rightarrow> norm_bound n k)
      in (s, e - s))"

text \<open>\<^verbatim>\<open>xs[lo:hi]\<close> read.\<close>

definition getslice :: "'a list \<Rightarrow> int option \<Rightarrow> int option \<Rightarrow> 'a list" where
  "getslice xs lo hi = (case slice_bounds (length xs) lo hi of (s, k) \<Rightarrow> take k (drop s xs))"

text \<open>
  \<^verbatim>\<open>xs[lo:hi] = ys\<close> for an array \<open>ys\<close>: the lengths agree, or \<open>ys\<close> has one element
  that is broadcast; anything else is numpy's ValueError.
\<close>

definition setslice :: "'a list \<Rightarrow> int option \<Rightarrow> int option \<Rightarrow> 'a list \<Rightarrow> error + 'a list" where
  "setslice xs lo hi ys =
     (case slice_bounds (length xs) lo hi of
        (s, k) \<Rightarrow>
          if length ys = k then Inr (take s xs @ ys @ drop (s + k) xs)
          else if length ys = 1 then Inr (take s xs @ replicate k (hd ys) @ drop (s + k) xs)
          else Inl ValueError)"

text \<open>\<^verbatim>\<open>xs[lo:hi] = v\<close> for a scalar \<open>v\<close>.\<close>

definition fillslice :: "'a list \<Rightarrow> int option \<Rightarrow> int option \<Rightarrow> 'a \<Rightarrow> 'a list" where
  "fillslice xs lo hi v =
     (case slice_bounds (length xs) lo hi of
        (s, k) \<Rightarrow> take s xs @ replicate k v @ drop (s + k) xs)"

text \<open>
  An elementwise binary operation on two one-dimensional arrays: equal lengths, or one of
  them has a single element that is broadcast.
\<close>

definition np_binop :: "('a \<Rightarrow> 'a \<Rightarrow> 'a) \<Rightarrow> 'a list \<Rightarrow> 'a list \<Rightarrow> error + 'a list" where
  "np_binop f xs ys =
     (if length xs = length ys then Inr (map2 f xs ys)
      else if length xs = 1 then Inr (map (f (hd xs)) ys)
      else if length ys = 1 then Inr (map (\<lambda>x. f x (hd ys)) xs)
      else Inl ValueError)"

text \<open>\<^verbatim>\<open>np.cumsum\<close>.\<close>

fun cumsum_from :: "real \<Rightarrow> real list \<Rightarrow> real list" where
  "cumsum_from acc [] = []"
| "cumsum_from acc (x # xs) = (acc + x) # cumsum_from (acc + x) xs"

definition cumsum :: "real list \<Rightarrow> real list" where
  "cumsum xs = cumsum_from 0 xs"

subsection \<open>\<^verbatim>\<open>sta_lta_centred\<close>\<close>

text \<open>
  \<^verbatim>\<open>x[k:] = x[k:] - x[:-k]\<close>: the difference is evaluated first, then written to the
  slice. On a cumulative sum it turns the entries from index \<open>k\<close> on into sums over a
  window of \<open>k\<close> samples.
\<close>

definition window_diff :: "real list \<Rightarrow> int \<Rightarrow> error + real list" where
  "window_diff x k =
     bind_res (np_binop (-) (getslice x (Some k) None) (getslice x None (Some (- k))))
       (\<lambda>d. setslice x (Some k) None d)"

text \<open>
  The short-term average, lines 46 and 51 to 53. The overlapping copy
  \<^verbatim>\<open>sta[nsta:-nsta] = sta[nsta*2:]\<close> reads the values the array had before the
  assignment.
\<close>

definition sta_centred :: "real list \<Rightarrow> int \<Rightarrow> error + real list" where
  "sta_centred a nsta =
     (let sta = cumsum (map (\<lambda>x. x ^ 2) a)
      in bind_res (window_diff sta nsta)
          (\<lambda>sta1. bind_res (setslice sta1 (Some nsta) (Some (- nsta)) (getslice sta1 (Some (nsta * 2)) None))
          (\<lambda>sta2. Inr (map (\<lambda>x. x / of_int nsta) sta2))))"

text \<open>The long-term average, lines 46, 48, 55 and 56 (before the guard of lines 62 to 65).\<close>

definition lta_centred :: "real list \<Rightarrow> int \<Rightarrow> error + real list" where
  "lta_centred a nlta =
     (let lta = cumsum (map (\<lambda>x. x ^ 2) a)
      in bind_res (window_diff lta nlta)
          (\<lambda>lta1. Inr (map (\<lambda>x. x / of_int nlta) lta1)))"

text \<open>
  The whole function: the two averages, the zeroed margins of the short-term average,
  the guard against a long-term average below \<open>dtiny\<close>, and the ratio.
\<close>

definition sta_lta_centred :: "real list \<Rightarrow> real \<Rightarrow> real \<Rightarrow> error + real list" where
  "sta_lta_centred a nsta0 nlta0 =
     (let nsta = py_round nsta0;
          nlta = py_round nlta0
      in bind_res (sta_centred a nsta)
          (\<lambda>sta. bind_res (lta_centred a nlta)
          (\<lambda>lta. let sta1 = fillslice sta None (Some (nlta - 1)) 0;
                    sta2 = fillslice sta1 (Some (- nsta)) None 0;
                    idx = map (\<lambda>l. l < dtiny) lta;
                    lta1 = map2 (\<lambda>l b. if b then dtiny else l) lta idx;
                    sta3 = map2 (\<lambda>s b. if b then 0 else s) sta2 idx
                in Inr (map2 (/) sta3 lta1))))"

subsection \<open>The library routines\<close>

text \<open>
  The module calls \<^verbatim>\<open>obspy.signal.trigger.classic_sta_lta\<close>,
  \<^verbatim>\<open>scipy.signal.butter\<close> (always with \<^verbatim>\<open>btype="band"\<close>),
  \<^verbatim>\<open>obspy.signal.invsim.cosine_taper\<close> and \<^verbatim>\<open>scipy.signal.lfilter\<close>. None of them is
  code of the repository, so the model takes them as a parameter; each may raise.
\<close>

record lib =
  classic_sta_lta :: "real list \<Rightarrow> int \<Rightarrow> int \<Rightarrow> error + real list"
  butter :: "int \<Rightarrow> real list \<Rightarrow> error + (real list \<times> real list)"
  cosine_taper :: "nat \<Rightarrow> real \<Rightarrow> error + real list"
  lfilter :: "real list \<Rightarrow> real list \<Rightarrow> real list \<Rightarrow> error + real list"

subsection \<open>\<^verbatim>\<open>onset\<close>\<close>

text \<open>
  The body of the loop over the channels, for one row \<^verbatim>\<open>sig[i, :]\<close>. The row of the
  copy is overwritten by the ratio (a whole-row slice assignment), then clipped from below
  at 0.8 and passed through \<^verbatim>\<open>np.log\<close>, the natural logarithm.
\<close>

definition onset_row :: "lib \<Rightarrow> int \<Rightarrow> int \<Rightarrow> bool \<Rightarrow> real list \<Rightarrow> error + real list" where
  "onset_row L stw ltw centred row =
     (if sum_list row = 0 then Inr (replicate (length row) 0)
      else bind_res (if centred then sta_lta_centred row (of_int stw) (of_int ltw)
                     else classic_sta_lta L row stw ltw)
            (\<lambda>ratio. bind_res (setslice row None None ratio)
            (\<lambda>r. Inr (map ln (map (\<lambda>v. max (8 / 10) (1 + v)) r)))))"

definition onset :: "lib \<Rightarrow> real list list \<Rightarrow> real \<Rightarrow> real \<Rightarrow> bool \<Rightarrow> error + real list list" where
  "onset L sig stw0 ltw0 centred =
     (let stw = py_round stw0;
          ltw = py_round ltw0
      in mapM_res (onset_row L stw ltw centred) sig)"

subsection \<open>\<^verbatim>\<open>filter\<close>\<close>

text \<open>
  The body of the loop over the channels: remove the first sample, taper, filter the
  reversed row and reverse the result, filter again. \<^verbatim>\<open>fsig[ch, 0]\<close> on a row without
  samples is an IndexError.
\<close>

definition filter_row :: "lib \<Rightarrow> real list \<Rightarrow> real list \<Rightarrow> real list \<Rightarrow> error + real list" where
  "filter_row L b1 a1 row =
     (case row of
        [] \<Rightarrow> Inl IndexError
      | x0 # _ \<Rightarrow>
          (let r1 = map (\<lambda>x. x - x0) row
           in bind_res (cosine_taper L (length r1) (1 / 10))
               (\<lambda>tap. bind_res (np_binop (*) r1 tap)
               (\<lambda>p. bind_res (setslice r1 None None p)
               (\<lambda>r2. bind_res (lfilter L b1 a1 (rev r2))
               (\<lambda>y1. bind_res (setslice r2 None None (rev y1))
               (\<lambda>r3. bind_res (lfilter L b1 a1 r3)
               (\<lambda>y2. setslice r3 None None y2))))))))"

text \<open>
  \<^verbatim>\<open>filter(sig, sampling_rate, lc, hc, order)\<close>. The critical frequencies are computed
  first (a division by the integer \<open>sampling_rate\<close>), then the filter is designed, then
  the channels are filtered in turn. There is no check of \<open>lc\<close>, \<open>hc\<close> or \<open>order\<close>.
\<close>

definition filter_sig :: "lib \<Rightarrow> real list list \<Rightarrow> int \<Rightarrow> real \<Rightarrow> real \<Rightarrow> int \<Rightarrow> error + real list list" where
  "filter_sig L sig sampling_rate lc hc order =
     (if sampling_rate = 0 then Inl ZeroDivisionError
      else bind_res (butter L order [2 * lc / of_int sampling_rate, 2 * hc / of_int sampling_rate])
             (\<lambda>(b1, a1). mapM_res (filter_row L b1 a1) sig))"

subsection \<open>The onset classes\<close>

text \<open>
  The attributes that the methods read or write and that \<^verbatim>\<open>ClassicSTALTAOnset.__init__\<close>
  does not assign: the three component signals, the cached filtered signals, and the two
  private pad attributes \<^verbatim>\<open>_pre_pad\<close> and \<^verbatim>\<open>_post_pad\<close>. \<open>None\<close> is an attribute
  that the object does not have.
\<close>

record Onset =
  sigz :: "real list list option"
  sige :: "real list list option"
  sign :: "real list list option"
  filt_sigz :: "real list list option"
  filt_sige :: "real list list option"
  filt_sign :: "real list list option"
  pre_pad_attr :: "real option"
  post_pad_attr :: "real option"

text \<open>
  Modelled from the spec: the constructor of the base class
  \<^verbatim>\<open>QMigrate.signal.onset.onset.Onset\<close>, which \<^verbatim>\<open>__init__\<close> calls first and which is not
  under src/. The specification lists the state of the object (section 4.3) and gives
  \<open>post_pad\<close> no initial value ("cached from a setter"), so the base constructor is
  taken to assign none of the attributes above.
\<close>

definition Onset_init :: Onset where
  "Onset_init =
     \<lparr>sigz = None, sige = None, sign = None,
      filt_sigz = None, filt_sige = None, filt_sign = None,
      pre_pad_attr = None, post_pad_attr = None\<rparr>"

text \<open>
  The configuration. A filter is the list \<^verbatim>\<open>[lowpass, highpass, corners]\<close> and a
  window the list \<^verbatim>\<open>[STA, LTA]\<close>; the methods unpack them into three and two names, so
  the model holds them as a triple and a pair.
\<close>

record ClassicSTALTAOnset = Onset +
  sampling_rate :: int
  p_bp_filter :: "real \<times> real \<times> int"
  s_bp_filter :: "real \<times> real \<times> int"
  p_onset_win :: "real \<times> real"
  s_onset_win :: "real \<times> real"
  onset_centred :: bool

definition ClassicSTALTAOnset_init :: "int \<Rightarrow> ClassicSTALTAOnset" where
  "ClassicSTALTAOnset_init rate =
     \<lparr>sigz = sigz Onset_init, sige = sige Onset_init, sign = sign Onset_init,
      filt_sigz = filt_sigz Onset_init, filt_sige = filt_sige Onset_init,
      filt_sign = filt_sign Onset_init,
      pre_pad_attr = pre_pad_attr Onset_init, post_pad_attr = post_pad_attr Onset_init,
      sampling_rate = rate,
      p_bp_filter = (2, 16, 2),
      s_bp_filter = (2, 12, 2),
      p_onset_win = (2 / 10, 1),
      s_onset_win = (2 / 10, 1),
      onset_centred = False\<rparr>"

definition CentredSTALTAOnset_init :: "int \<Rightarrow> ClassicSTALTAOnset" where
  "CentredSTALTAOnset_init rate = (ClassicSTALTAOnset_init rate)\<lparr>onset_centred := True\<rparr>"

text \<open>\<^verbatim>\<open>int(seconds * self.sampling_rate) + 1\<close>, the window length in samples.\<close>

definition window_samples :: "real \<Rightarrow> int \<Rightarrow> int" where
  "window_samples seconds rate = py_int (seconds * of_int rate) + 1"

text \<open>
  \<^verbatim>\<open>p_onset\<close> returns the onset array and leaves the filtered signal on the object.
\<close>

definition p_onset :: "lib \<Rightarrow> ClassicSTALTAOnset \<Rightarrow> error + (real list list \<times> ClassicSTALTAOnset)" where
  "p_onset L self =
     (case p_onset_win self of
        (stw0, ltw0) \<Rightarrow>
          let stw = window_samples stw0 (sampling_rate self);
              ltw = window_samples ltw0 (sampling_rate self)
          in (case p_bp_filter self of
                (lc, hc, ord) \<Rightarrow>
                  (case sigz self of
                     None \<Rightarrow> Inl AttributeError
                   | Some z \<Rightarrow>
                       bind_res (filter_sig L z (sampling_rate self) lc hc ord)
                         (\<lambda>fz. let self1 = self\<lparr>filt_sigz := Some fz\<rparr>
                               in bind_res (onset L fz (of_int stw) (of_int ltw) (onset_centred self1))
                                    (\<lambda>p. Inr (p, self1))))))"

text \<open>
  Elementwise operation on two two-dimensional arrays, with numpy's broadcasting of an
  axis of length one.
\<close>

definition np_binop2 :: "('a \<Rightarrow> 'a \<Rightarrow> 'a) \<Rightarrow> 'a list list \<Rightarrow> 'a list list \<Rightarrow> error + 'a list list" where
  "np_binop2 f xss yss =
     (if length xss = length yss then mapM_res (\<lambda>(xs, ys). np_binop f xs ys) (zip xss yss)
      else if length xss = 1 then mapM_res (\<lambda>ys. np_binop f (hd xss) ys) yss
      else if length yss = 1 then mapM_res (\<lambda>xs. np_binop f xs (hd yss)) xss
      else Inl ValueError)"

definition s_onset :: "lib \<Rightarrow> ClassicSTALTAOnset \<Rightarrow> error + (real list list \<times> ClassicSTALTAOnset)" where
  "s_onset L self =
     (case s_onset_win self of
        (stw0, ltw0) \<Rightarrow>
          let stw = window_samples stw0 (sampling_rate self);
              ltw = window_samples ltw0 (sampling_rate self)
          in (case s_bp_filter self of
                (lc, hc, ord) \<Rightarrow>
                  (case sige self of
                     None \<Rightarrow> Inl AttributeError
                   | Some e \<Rightarrow>
                       bind_res (filter_sig L e (sampling_rate self) lc hc ord)
                         (\<lambda>fe. let self1 = self\<lparr>filt_sige := Some fe\<rparr>
                          in (case sign self1 of
                                None \<Rightarrow> Inl AttributeError
                              | Some n \<Rightarrow>
                                  bind_res (filter_sig L n (sampling_rate self1) lc hc ord)
                                    (\<lambda>fn. let self2 = self1\<lparr>filt_sign := Some fn\<rparr>
                                     in bind_res (onset L fe (of_int stw) (of_int ltw) (onset_centred self2))
                                    (\<lambda>s_e_onset. bind_res (onset L fn (of_int stw) (of_int ltw) (onset_centred self2))
                                    (\<lambda>s_n_onset.
                                       bind_res (np_binop2 (+) (map (map (\<lambda>v. v ^ 2)) s_e_onset)
                                                               (map (map (\<lambda>v. v ^ 2)) s_n_onset))
                                    (\<lambda>ss. Inr (map (map (\<lambda>v. sqrt (v / 2))) ss, self2))))))))))"

text \<open>The property \<^verbatim>\<open>pre_pad\<close> and its setter, which stores a value that nothing reads.\<close>

definition pre_pad :: "ClassicSTALTAOnset \<Rightarrow> real" where
  "pre_pad self =
     max (snd (p_onset_win self)) (snd (s_onset_win self))
       + 3 * max (fst (p_onset_win self)) (fst (s_onset_win self))"

definition pre_pad_setter :: "ClassicSTALTAOnset \<Rightarrow> real \<Rightarrow> ClassicSTALTAOnset" where
  "pre_pad_setter self v = self\<lparr>pre_pad_attr := Some v\<rparr>"

text \<open>The property \<^verbatim>\<open>post_pad\<close> returns \<^verbatim>\<open>self._post_pad\<close>; its setter computes it.\<close>

definition post_pad :: "ClassicSTALTAOnset \<Rightarrow> error + real" where
  "post_pad self = (case post_pad_attr self of None \<Rightarrow> Inl AttributeError | Some v \<Rightarrow> Inr v)"

definition post_pad_setter :: "ClassicSTALTAOnset \<Rightarrow> real \<Rightarrow> ClassicSTALTAOnset" where
  "post_pad_setter self ttmax =
     (let lta_max = max (snd (p_onset_win self)) (snd (s_onset_win self))
      in self\<lparr>post_pad_attr := Some (of_int \<lceil>ttmax + 2 * lta_max\<rceil>)\<rparr>)"

subsection \<open>An instance of the library\<close>

text \<open>
  To evaluate the model on concrete inputs the library parameter needs a value. The
  instance below stands for the routines as follows:
  \<^item> \<open>std_lfilter\<close> is the difference equation of \<^verbatim>\<open>scipy.signal.lfilter\<close> with zero
    initial state, \<open>a[0]*y[n] = b[0]*x[n] + ... + b[M]*x[n-M] - a[1]*y[n-1] - ... - a[N]*y[n-N]\<close>;
  \<^item> \<open>range_checked_design\<close> rejects critical frequencies outside the open interval
    from 0 to 1 with a ValueError, as \<^verbatim>\<open>scipy.signal.butter\<close> does, and otherwise returns
    the coefficients \<open>b = [1]\<close>, \<open>a = [1]\<close> of the identity filter in place of
    Butterworth's;
  \<^item> \<open>unit_taper\<close> has weight one at every sample, which is what
    \<^verbatim>\<open>cosine_taper(npts, 0.1)\<close> of obspy returns for fewer than ten samples;
  \<^item> \<open>classic_sta_lta_py\<close> follows obspy's Python implementation of the classic
    STA/LTA: both windows end at the sample.
\<close>

fun lfilter_run :: "real list \<Rightarrow> real list \<Rightarrow> real list \<Rightarrow> real list \<Rightarrow> real list \<Rightarrow> real list" where
  "lfilter_run b a xh yh [] = rev yh"
| "lfilter_run b a xh yh (x # xs) =
     (let y = (sum_list (map2 (*) b (x # xh)) - sum_list (map2 (*) (tl a) yh)) / hd a
      in lfilter_run b a (x # xh) (y # yh) xs)"

definition std_lfilter :: "real list \<Rightarrow> real list \<Rightarrow> real list \<Rightarrow> error + real list" where
  "std_lfilter b a x = (if a = [] \<or> hd a = 0 then Inl ValueError else Inr (lfilter_run b a [] [] x))"

definition range_checked_design :: "int \<Rightarrow> real list \<Rightarrow> error + (real list \<times> real list)" where
  "range_checked_design order wn =
     (if list_all (\<lambda>w. 0 < w \<and> w < 1) wn then Inr ([1], [1]) else Inl ValueError)"

definition unit_taper :: "nat \<Rightarrow> real \<Rightarrow> error + real list" where
  "unit_taper npts p = Inr (replicate npts 1)"

definition classic_sta_lta_py :: "real list \<Rightarrow> int \<Rightarrow> int \<Rightarrow> error + real list" where
  "classic_sta_lta_py a nsta nlta =
     (let sta = cumsum (map (\<lambda>x. x ^ 2) a)
      in bind_res (window_diff sta nsta)
          (\<lambda>sta1. let sta2 = map (\<lambda>x. x / of_int nsta) sta1
           in bind_res (lta_centred a nlta)
          (\<lambda>lta. let sta3 = fillslice sta2 None (Some (nlta - 1)) 0;
                    lta1 = map (\<lambda>l. if l < dtiny then dtiny else l) lta
                in Inr (map2 (/) sta3 lta1))))"

definition std_lib :: lib where
  "std_lib =
     \<lparr>classic_sta_lta = classic_sta_lta_py,
      butter = range_checked_design,
      cosine_taper = unit_taper,
      lfilter = std_lfilter\<rparr>"

subsection \<open>A property of the library and an example object\<close>

text \<open>
  A filter with zero initial state maps the zero signal to the zero signal, whatever its
  coefficients. The genuine \<^verbatim>\<open>lfilter\<close> has this property; for the library parameter
  it is a hypothesis where it is needed.
\<close>

definition lfilter_keeps_zero :: "lib \<Rightarrow> bool" where
  "lfilter_keeps_zero L = (\<forall>b a k y. lfilter L b a (replicate k 0) = Inr y \<longrightarrow> y = replicate k 0)"

text \<open>
  An object of the centred class at 1 Hz with three channels per component, band-pass
  corners 0.1 Hz and 0.4 Hz and the windows 0.75 s and 1.75 s. The first Z channel sums
  to zero but is not constant, the second is unchanged by the removal of its first sample
  and sums to zero, the third is silent.
\<close>

definition example_obj :: ClassicSTALTAOnset where
  "example_obj =
     (CentredSTALTAOnset_init 1)
       \<lparr>sigz := Some [[1, - 1, 1, - 1], [0, 1, - 1, 0], [0, 0, 0, 0]],
        sige := Some [[1, - 1, 1, - 1], [0, 1, - 1, 0], [0, 0, 0, 0]],
        sign := Some [[0, 1, 0, 2], [0, 2, - 2, 0], [0, 0, 0, 0]],
        p_bp_filter := (1 / 10, 2 / 5, 2),
        s_bp_filter := (1 / 10, 2 / 5, 2),
        p_onset_win := (3 / 4, 7 / 4),
        s_onset_win := (3 / 4, 7 / 4)\<rparr>"

subsection \<open>The cumulative sum of the specification\<close>

text \<open>
  The specification writes \<open>csum[k]\<close> for the sum of the squared samples \<open>a[0]\<close> to
  \<open>a[k]\<close>. As a function of the index it is defined for \<open>k = -1\<close> as well, where the
  sum is empty.
\<close>

definition csum :: "real list \<Rightarrow> int \<Rightarrow> real" where
  "csum a k = sum_list (map (\<lambda>x. x ^ 2) (take (nat (k + 1)) a))"

section \<open>Properties\<close>

subsection \<open>Results, rounding, cumulative sums and slices\<close>

lemma py_round_of_int [simp]: "py_round (of_int k) = k"
  by (simp add: py_round_def)

lemma bind_res_simps [simp]:
  "bind_res (Inl e) f = Inl e"
  "bind_res (Inr x) f = f x"
  by (simp_all add: bind_res_def)

lemma bind_res_eq_Inr:
  "bind_res m f = Inr y \<longleftrightarrow> (\<exists>x. m = Inr x \<and> f x = Inr y)"
  by (cases m) simp_all

lemma length_cumsum_from [simp]: "length (cumsum_from acc xs) = length xs"
  by (induction xs arbitrary: acc) simp_all

lemma length_cumsum [simp]: "length (cumsum xs) = length xs"
  by (simp add: cumsum_def)

lemma cumsum_from_nth:
  "i < length xs \<Longrightarrow> cumsum_from acc xs ! i = acc + sum_list (take (Suc i) xs)"
proof (induction xs arbitrary: acc i)
  case Nil
  then show ?case by simp
next
  case (Cons x xs)
  then show ?case by (cases i) simp_all
qed

lemma cumsum_nth: "i < length xs \<Longrightarrow> cumsum xs ! i = sum_list (take (Suc i) xs)"
  by (simp add: cumsum_def cumsum_from_nth)

lemma window_diff_pos:
  assumes "0 < k"
  shows "window_diff x (int k) =
           Inr (map (\<lambda>i. if i < k then x ! i else x ! i - x ! (i - k)) [0..<length x])"
proof -
  let ?n = "length x"
  let ?d = "map2 (-) (drop k x) (take (?n - k) x)"
  have g1: "getslice x (Some (int k)) None = drop k x"
    by (simp add: getslice_def slice_bounds_def norm_bound_def min_def Let_def)
  have g2: "getslice x None (Some (- int k)) = take (?n - k) x"
    using assms by (simp add: getslice_def slice_bounds_def norm_bound_def nat_diff_distrib' Let_def)
  have d: "np_binop (-) (drop k x) (take (?n - k) x) = Inr ?d"
    by (simp add: np_binop_def)
  have ld: "length ?d = ?n - k" by simp
  have s: "setslice x (Some (int k)) None ?d = Inr (take k x @ ?d)"
    by (simp add: setslice_def slice_bounds_def norm_bound_def min_def Let_def)
  have "take k x @ ?d = map (\<lambda>i. if i < k then x ! i else x ! i - x ! (i - k)) [0..<?n]"
  proof (rule nth_equalityI)
    show "length (take k x @ ?d) = length (map (\<lambda>i. if i < k then x ! i else x ! i - x ! (i - k)) [0..<?n])"
      by (simp add: min_def)
  next
    fix i assume "i < length (take k x @ ?d)"
    then have i: "i < ?n" by (simp add: min_def split: if_splits)
    show "(take k x @ ?d) ! i = map (\<lambda>i. if i < k then x ! i else x ! i - x ! (i - k)) [0..<?n] ! i"
    proof (cases "i < k")
      case True
      with i show ?thesis by (simp add: nth_append)
    next
      case False
      with i have ik: "i - k < ?n - k" by simp
      then have "?d ! (i - k) = drop k x ! (i - k) - take (?n - k) x ! (i - k)"
        by simp
      also have "\<dots> = x ! i - x ! (i - k)"
        using False i ik by simp
      finally show ?thesis using False i by (simp add: nth_append min_def)
    qed
  qed
  then show ?thesis
    by (simp add: window_diff_def g1 g2 d s)
qed

lemma shift_copy_pos:
  assumes "0 < k"
  shows "setslice x (Some (int k)) (Some (- int k)) (getslice x (Some (int k * 2)) None) =
           Inr (map (\<lambda>i. if k \<le> i \<and> i < length x - k then x ! (i + k) else x ! i) [0..<length x])"
proof -
  let ?n = "length x"
  let ?f = "\<lambda>i. if k \<le> i \<and> i < ?n - k then x ! (i + k) else x ! i"
  have g: "getslice x (Some (int k * 2)) None = drop (2 * k) x"
    by (simp add: getslice_def slice_bounds_def norm_bound_def min_def nat_mult_distrib Let_def mult.commute)
  have b: "slice_bounds ?n (Some (int k)) (Some (- int k)) = (min k ?n, ?n - 2 * k)"
    using assms by (auto simp add: slice_bounds_def norm_bound_def min_def nat_diff_distrib' Let_def)
  have "take (min k ?n) x @ drop (2 * k) x @ drop (min k ?n + (?n - 2 * k)) x = map ?f [0..<?n]"
  proof (rule nth_equalityI)
    show "length (take (min k ?n) x @ drop (2 * k) x @ drop (min k ?n + (?n - 2 * k)) x) = length (map ?f [0..<?n])"
      by (simp add: min_def)
  next
    fix i assume "i < length (take (min k ?n) x @ drop (2 * k) x @ drop (min k ?n + (?n - 2 * k)) x)"
    then have i: "i < ?n" by (simp add: min_def split: if_splits)
    show "(take (min k ?n) x @ drop (2 * k) x @ drop (min k ?n + (?n - 2 * k)) x) ! i = map ?f [0..<?n] ! i"
    proof (cases "i < k")
      case True
      with i show ?thesis by (simp add: nth_append min_def)
    next
      case False
      show ?thesis
      proof (cases "i < ?n - k")
        case True
        with False i have "i - k < ?n - 2 * k" "2 * k + (i - k) = i + k" by simp_all
        with True False i show ?thesis by (simp add: nth_append min_def add.commute)
      next
        case nb: False
        with False i have "k + (?n - 2 * k) + (i - k - (?n - 2 * k)) = i"
          and "\<not> i - k < ?n - 2 * k" by simp_all
        with nb False i show ?thesis by (simp add: nth_append min_def)
      qed
    qed
  qed
  then show ?thesis
    by (simp add: setslice_def g b)
qed

lemma fill_head:
  assumes "0 < w"
  shows "fillslice x None (Some (int w - 1)) v =
           map (\<lambda>i. if i < w - 1 then v else x ! i) [0..<length x]"
proof -
  have "norm_bound (length x) (int w - 1) = min (w - 1) (length x)"
    using assms by (simp add: norm_bound_def nat_diff_distrib')
  then have b: "slice_bounds (length x) None (Some (int w - 1)) = (0, min (w - 1) (length x))"
    by (simp add: slice_bounds_def Let_def)
  show ?thesis
    unfolding fillslice_def b
    by (simp, rule nth_equalityI) (auto simp add: nth_append min_def)
qed

lemma fill_tail:
  assumes "0 < k"
  shows "fillslice x (Some (- int k)) None v =
           map (\<lambda>i. if length x - k \<le> i then v else x ! i) [0..<length x]"
proof -
  have "norm_bound (length x) (- int k) = length x - k"
    using assms by (simp add: norm_bound_def nat_diff_distrib')
  then have b: "slice_bounds (length x) (Some (- int k)) None = (length x - k, length x - (length x - k))"
    by (simp add: slice_bounds_def Let_def)
  show ?thesis
    unfolding fillslice_def b
    by (simp, rule nth_equalityI) (auto simp add: nth_append min_def)
qed

subsection \<open>The centred STA/LTA\<close>

text \<open>
  For positive window lengths the function raises nothing, and every entry of its result
  has a closed form in the cumulative sum of squares.
\<close>

lemma map2_map_upt:
  "map2 f (map g [0..<n]) (map h [0..<n]) = map (\<lambda>i. f (g i) (h i)) [0..<n]"
  by (rule nth_equalityI) simp_all

lemma py_round_of_nat [simp]: "py_round (of_nat k) = int k"
  using py_round_of_int [of "int k"] by simp

lemma sta_centred_pos:
  assumes "0 < S"
  shows "sta_centred a (int S) =
           Inr (map (\<lambda>i. (if S \<le> i \<and> i < length a - S
                           then cumsum (map (\<lambda>x. x ^ 2) a) ! (i + S) - cumsum (map (\<lambda>x. x ^ 2) a) ! i
                           else if i < S then cumsum (map (\<lambda>x. x ^ 2) a) ! i
                           else cumsum (map (\<lambda>x. x ^ 2) a) ! i - cumsum (map (\<lambda>x. x ^ 2) a) ! (i - S))
                          / of_nat S) [0..<length a])"
proof -
  let ?cs = "cumsum (map (\<lambda>x. x ^ 2) a)"
  let ?s1 = "map (\<lambda>i. if i < S then ?cs ! i else ?cs ! i - ?cs ! (i - S)) [0..<length a]"
  have w: "window_diff ?cs (int S) = Inr ?s1"
    using window_diff_pos [OF assms, of ?cs] by simp
  have c: "setslice ?s1 (Some (int S)) (Some (- int S)) (getslice ?s1 (Some (int S * 2)) None)
             = Inr (map (\<lambda>i. if S \<le> i \<and> i < length a - S then ?s1 ! (i + S) else ?s1 ! i) [0..<length a])"
    using shift_copy_pos [OF assms, of ?s1] by simp
  have e: "map (\<lambda>x. x / real S) (map (\<lambda>i. if S \<le> i \<and> i < length a - S then ?s1 ! (i + S) else ?s1 ! i) [0..<length a])
        = map (\<lambda>i. (if S \<le> i \<and> i < length a - S then ?cs ! (i + S) - ?cs ! i
                     else if i < S then ?cs ! i else ?cs ! i - ?cs ! (i - S)) / of_nat S) [0..<length a]"
    using assms by (auto simp add: less_diff_conv)
  show ?thesis
    unfolding sta_centred_def Let_def w bind_res_simps c
    using e by simp
qed

lemma lta_centred_pos:
  assumes "0 < W"
  shows "lta_centred a (int W) =
           Inr (map (\<lambda>i. (if i < W then cumsum (map (\<lambda>x. x ^ 2) a) ! i
                           else cumsum (map (\<lambda>x. x ^ 2) a) ! i - cumsum (map (\<lambda>x. x ^ 2) a) ! (i - W))
                          / of_nat W) [0..<length a])"
proof -
  let ?cs = "cumsum (map (\<lambda>x. x ^ 2) a)"
  have w: "window_diff ?cs (int W) =
             Inr (map (\<lambda>i. if i < W then ?cs ! i else ?cs ! i - ?cs ! (i - W)) [0..<length a])"
    using window_diff_pos [OF assms, of ?cs] by simp
  show ?thesis
    unfolding lta_centred_def Let_def w bind_res_simps by (simp add: comp_def)
qed


lemma sta_lta_centred_pos:
  assumes "0 < S" "0 < W"
  shows "sta_lta_centred a (of_nat S) (of_nat W) =
           Inr (map (\<lambda>i.
                  let cs = cumsum (map (\<lambda>x. x ^ 2) a);
                      lta = (if i < W then cs ! i else cs ! i - cs ! (i - W)) / of_nat W;
                      sta = (if S \<le> i \<and> i < length a - S then cs ! (i + S) - cs ! i
                             else if i < S then cs ! i else cs ! i - cs ! (i - S)) / of_nat S
                  in if lta < dtiny then 0
                     else (if i < W - 1 \<or> length a - S \<le> i then 0 else sta) / lta)
                [0..<length a])"
proof -
  let ?n = "length a"
  let ?cs = "cumsum (map (\<lambda>x. x ^ 2) a)"
  let ?sta = "\<lambda>i. (if S \<le> i \<and> i < ?n - S then ?cs ! (i + S) - ?cs ! i
                     else if i < S then ?cs ! i else ?cs ! i - ?cs ! (i - S)) / real S"
  let ?lta = "\<lambda>i. (if i < W then ?cs ! i else ?cs ! i - ?cs ! (i - W)) / real W"
  have s: "sta_centred a (int S) = Inr (map ?sta [0..<?n])"
    by (rule sta_centred_pos [OF assms(1)])
  have l: "lta_centred a (int W) = Inr (map ?lta [0..<?n])"
    by (rule lta_centred_pos [OF assms(2)])
  have f1: "fillslice (map ?sta [0..<?n]) None (Some (int W - 1)) 0
              = map (\<lambda>i. if i < W - 1 then 0 else ?sta i) [0..<?n]"
    using fill_head [OF assms(2), of "map ?sta [0..<?n]" 0]
    by (simp cong: map_cong)
  have f2: "fillslice (map (\<lambda>i. if i < W - 1 then 0 else ?sta i) [0..<?n]) (Some (- int S)) None 0
              = map (\<lambda>i. if i < W - 1 \<or> ?n - S \<le> i then 0 else ?sta i) [0..<?n]"
    using fill_tail [OF assms(1), of "map (\<lambda>i. if i < W - 1 then 0 else ?sta i) [0..<?n]" 0]
    by (simp cong: map_cong)
  have i1: "map (\<lambda>l. l < dtiny) (map ?lta [0..<?n]) = map (\<lambda>i. ?lta i < dtiny) [0..<?n]"
    by (simp add: comp_def)
  show ?thesis
    unfolding sta_lta_centred_def py_round_of_nat Let_def s l bind_res_simps f1 f2 i1 map2_map_upt
    by (simp cong: map_cong)
qed

lemma cumsum_sq_nth:
  "i < length a \<Longrightarrow> cumsum (map (\<lambda>x. x ^ 2) a) ! i = csum a (int i)"
  by (simp add: cumsum_nth csum_def take_map nat_add_distrib)

text \<open>
  Claim C5, as the code has it. For a signal of length \<open>n\<close> and \<open>0 < nsta < nlta \<le> n\<close>
  the function returns an array of length \<open>n\<close>; its first \<open>nlta - 1\<close> and last \<open>nsta\<close>
  entries are zero; at an interior index \<open>i\<close> (\<open>nlta - 1 \<le> i < n - nsta\<close>) the entry is
  \<open>((csum[i+nsta] - csum[i]) / nsta) / ((csum[i] - csum[i-nlta]) / nlta)\<close> where that
  long-term average is at least \<open>dtiny\<close>, and zero where it is below (the guard of lines
  62 to 65). \<open>csum[-1]\<close>, which the formula reads at \<open>i = nlta - 1\<close>, is the empty sum.
\<close>

theorem sta_lta_centred_values:
  assumes "0 < nsta" "nsta < nlta" "nlta \<le> int (length a)"
  shows "\<exists>r. sta_lta_centred a (of_int nsta) (of_int nlta) = Inr r
           \<and> length r = length a
           \<and> (\<forall>i. int i < nlta - 1 \<longrightarrow> r ! i = 0)
           \<and> (\<forall>i. int (length a) - nsta \<le> int i \<and> i < length a \<longrightarrow> r ! i = 0)
           \<and> (\<forall>i. nlta - 1 \<le> int i \<and> int i < int (length a) - nsta \<longrightarrow>
                 r ! i = (let sta = (csum a (int i + nsta) - csum a (int i)) / of_int nsta;
                              lta = (csum a (int i) - csum a (int i - nlta)) / of_int nlta
                          in if lta < dtiny then 0 else sta / lta))"
proof -
  define S where "S = nat nsta"
  define W where "W = nat nlta"
  let ?n = "length a"
  let ?cs = "cumsum (map (\<lambda>x. x ^ 2) a)"
  have SW: "0 < S" "S < W" "W \<le> ?n" "nsta = int S" "nlta = int W"
    using assms by (simp_all add: S_def W_def)
  let ?f = "\<lambda>i. let cs = ?cs;
                    lta = (if i < W then cs ! i else cs ! i - cs ! (i - W)) / of_nat W;
                    sta = (if S \<le> i \<and> i < ?n - S then cs ! (i + S) - cs ! i
                           else if i < S then cs ! i else cs ! i - cs ! (i - S)) / of_nat S
                in if lta < dtiny then 0
                   else (if i < W - 1 \<or> ?n - S \<le> i then 0 else sta) / lta"
  have r: "sta_lta_centred a (of_int nsta) (of_int nlta) = Inr (map ?f [0..<?n])"
    using sta_lta_centred_pos [of S W a] SW by simp
  have head: "map ?f [0..<?n] ! i = 0" if "int i < nlta - 1" for i
  proof -
    from that SW have "i < W - 1" "i < ?n" by simp_all
    then show ?thesis by (simp add: Let_def)
  qed
  have tail: "map ?f [0..<?n] ! i = 0" if "int ?n - nsta \<le> int i" "i < ?n" for i
  proof -
    from that SW have "?n - S \<le> i" by simp
    with that show ?thesis by (simp add: Let_def)
  qed
  have mid: "map ?f [0..<?n] ! i =
               (let sta = (csum a (int i + nsta) - csum a (int i)) / of_int nsta;
                    lta = (csum a (int i) - csum a (int i - nlta)) / of_int nlta
                in if lta < dtiny then 0 else sta / lta)"
    if "nlta - 1 \<le> int i" "int i < int ?n - nsta" for i
  proof -
    from that SW have i: "W - 1 \<le> i" "i < ?n - S" "S \<le> i" "i < ?n" "i + S < ?n"
      by simp_all
    have c1: "?cs ! (i + S) = csum a (int i + nsta)"
      using i SW cumsum_sq_nth [of "i + S" a] by simp
    have c2: "?cs ! i = csum a (int i)"
      using i cumsum_sq_nth [of i a] by simp
    define lt where "lt = (if i < W then ?cs ! i else ?cs ! i - ?cs ! (i - W))"
    have c3: "lt = csum a (int i) - csum a (int i - nlta)"
    proof (cases "i < W")
      case True
      with i have "int i - nlta = - 1" using SW by simp
      then have "csum a (int i - nlta) = 0" by (simp add: csum_def)
      with True c2 show ?thesis by (simp add: lt_def)
    next
      case False
      then have "?cs ! (i - W) = csum a (int (i - W))"
        using i cumsum_sq_nth [of "i - W" a] by simp
      with False c2 SW show ?thesis by (simp add: lt_def)
    qed
    have "map ?f [0..<?n] ! i =
            (if lt / of_nat W < dtiny then 0
             else ((?cs ! (i + S) - ?cs ! i) / of_nat S) / (lt / of_nat W))"
      using i by (simp add: Let_def lt_def)
    also have "\<dots> =
            (if (csum a (int i) - csum a (int i - nlta)) / of_int nlta < dtiny then 0
             else ((csum a (int i + nsta) - csum a (int i)) / of_int nsta)
                  / ((csum a (int i) - csum a (int i - nlta)) / of_int nlta))"
      by (simp only: c3 c1 c2 SW(4,5) of_int_of_nat_eq)
    finally show ?thesis by (simp add: Let_def)
  qed
  show ?thesis
    using r head tail mid by (intro exI [of _ "map ?f [0..<?n]"]) simp
qed

theorem sta_lta_centred_values_witness:
  "(0::int) < 2 \<and> (2::int) < 3 \<and> (3::int) \<le> int (length [1, 2, 3, 4, 5, 6 :: real])
   \<and> (\<exists>r. sta_lta_centred [1, 2, 3, 4, 5, 6] (of_int 2) (of_int 3) = Inr r
          \<and> length r = 6 \<and> r ! 1 = 0 \<and> r ! 4 = 0 \<and> r ! 2 = 123 / 28)"
proof -
  have h: "(0::int) < 2" "(2::int) < 3" "(3::int) \<le> int (length [1, 2, 3, 4, 5, 6 :: real])"
    by simp_all
  from sta_lta_centred_values [OF h] obtain r where
    r: "sta_lta_centred [1, 2, 3, 4, 5, 6] (of_int 2) (of_int 3) = Inr r"
      "length r = length [1, 2, 3, 4, 5, 6 :: real]"
      "\<forall>i. int i < 3 - 1 \<longrightarrow> r ! i = 0"
      "\<forall>i. int (length [1, 2, 3, 4, 5, 6 :: real]) - 2 \<le> int i \<and> i < length [1, 2, 3, 4, 5, 6 :: real] \<longrightarrow> r ! i = 0"
      "\<forall>i. 3 - 1 \<le> int i \<and> int i < int (length [1, 2, 3, 4, 5, 6 :: real]) - 2 \<longrightarrow>
         r ! i = (let sta = (csum [1, 2, 3, 4, 5, 6] (int i + 2) - csum [1, 2, 3, 4, 5, 6] (int i)) / of_int 2;
                      lta = (csum [1, 2, 3, 4, 5, 6] (int i) - csum [1, 2, 3, 4, 5, 6] (int i - 3)) / of_int 3
                  in if lta < dtiny then 0 else sta / lta)"
    by blast
  from r(3) have r1: "r ! 1 = 0" by simp
  from r(4) have r4: "r ! 4 = 0" by simp
  from r(5) have "r ! 2 = (let sta = (csum [1, 2, 3, 4, 5, 6] (int 2 + 2) - csum [1, 2, 3, 4, 5, 6] (int 2)) / of_int 2;
                      lta = (csum [1, 2, 3, 4, 5, 6] (int 2) - csum [1, 2, 3, 4, 5, 6] (int 2 - 3)) / of_int 3
                  in if lta < dtiny then 0 else sta / lta)"
    by simp
  then have r2: "r ! 2 = 123 / 28"
    by (simp add: csum_def dtiny_def Let_def)
  show ?thesis
    using h r(1,2) r1 r4 r2 by auto
qed

text \<open>
  The claim without the guard fails: in the signal below the long-term average at index 2
  is \<open>2^-1040\<close>, below \<open>dtiny = 2^-1022\<close>, so the entry is forced to zero, while the
  quotient of the two window averages is \<open>2^1040\<close>.
\<close>

theorem sta_lta_centred_guard_counterexample:
  "sta_lta_centred [0, 1 / 2 ^ 520, 1 / 2 ^ 520, 1] 1 2 = Inr [0, 0, 0, 0]
   \<and> ((csum [0, 1 / 2 ^ 520, 1 / 2 ^ 520, 1] (2 + 1) - csum [0, 1 / 2 ^ 520, 1 / 2 ^ 520, 1] 2) / 1)
       / ((csum [0, 1 / 2 ^ 520, 1 / 2 ^ 520, 1] 2 - csum [0, 1 / 2 ^ 520, 1 / 2 ^ 520, 1] (2 - 2)) / 2)
     = 2 ^ 1040"
proof -
  have a: "sta_lta_centred [0, 1 / 2 ^ 520, 1 / 2 ^ 520, 1] 1 2 = Inr [0, 0, 0, 0]"
    using sta_lta_centred_pos [of 1 2 "[0, 1 / 2 ^ 520, 1 / 2 ^ 520, 1]"]
    by (simp add: upt_rec cumsum_def dtiny_def Let_def power_divide)
  have b: "((csum [0, 1 / 2 ^ 520, 1 / 2 ^ 520, 1] (2 + 1) - csum [0, 1 / 2 ^ 520, 1 / 2 ^ 520, 1] 2) / 1)
       / ((csum [0, 1 / 2 ^ 520, 1 / 2 ^ 520, 1] 2 - csum [0, 1 / 2 ^ 520, 1 / 2 ^ 520, 1] (2 - 2)) / 2)
     = 2 ^ 1040"
    by (simp add: csum_def power_divide)
  show ?thesis
    using a b by (rule conjI)
qed

subsection \<open>The onset function\<close>

lemma mapM_res_length: "mapM_res f xs = Inr ys \<Longrightarrow> length ys = length xs"
  by (induction xs arbitrary: ys) (auto split: sum.splits)

lemma mapM_res_nth:
  "mapM_res f xs = Inr ys \<Longrightarrow> i < length xs \<Longrightarrow> f (xs ! i) = Inr (ys ! i)"
proof (induction xs arbitrary: ys i)
  case Nil
  then show ?case by simp
next
  case (Cons x xs)
  then show ?case by (cases i) (auto split: sum.splits)
qed


lemma mapM_res_Inl:
  "mapM_res f xs = Inl e \<Longrightarrow> \<exists>x \<in> set xs. f x = Inl e"
  by (induction xs) (auto split: sum.splits)

lemma setslice_whole:
  "length ys = length xs \<Longrightarrow> setslice xs None None ys = Inr ys"
  by (simp add: setslice_def slice_bounds_def)

text \<open>A slice assignment that succeeds leaves the length of the array as it was.\<close>

lemma norm_bound_le: "norm_bound n k \<le> n"
  unfolding norm_bound_def by (cases "k < 0") auto

lemma slice_bounds_le:
  assumes "slice_bounds n lo hi = (s, k)"
  shows "s + k \<le> n"
proof -
  define e where "e = (case hi of None \<Rightarrow> n | Some j \<Rightarrow> norm_bound n j)"
  have s: "s = (case lo of None \<Rightarrow> 0 | Some j \<Rightarrow> norm_bound n j)" and k: "k = e - s"
    using assms by (auto simp add: slice_bounds_def Let_def e_def)
  have "s \<le> n" "e \<le> n"
    unfolding s e_def by (simp_all add: norm_bound_le split: option.splits)
  with k show ?thesis by simp
qed

lemma setslice_length:
  assumes "setslice xs lo hi ys = Inr zs"
  shows "length zs = length xs"
proof -
  obtain s k where b: "slice_bounds (length xs) lo hi = (s, k)"
    by (cases "slice_bounds (length xs) lo hi")
  from slice_bounds_le [OF b] have "s + k \<le> length xs" .
  with assms b show ?thesis
    by (auto simp add: setslice_def split: if_splits)
qed








lemma ln2_neq_log10: "ln (2::real) \<noteq> log 10 2"
proof -
  have "exp (1::real) < 10"
    using exp_le by (smt (verit))
  then have "ln (10::real) \<noteq> 1"
    by (metis exp_ln less_irrefl zero_less_numeral)
  moreover have "ln (2::real) \<noteq> 0" by simp
  ultimately show ?thesis
    by (simp add: log_def field_simps)
qed

text \<open>
  Claim C1 at a concrete input. The channel \<open>[1, 1, 1]\<close> is not bypassed; with the
  windows 1 and 2 its centred ratio is \<open>[0, 1, 0]\<close>, and the onset at index 1 is the
  natural logarithm of \<open>1 + 1\<close>, which differs from the decimal logarithm that the
  docstrings of \<^verbatim>\<open>onset\<close>, \<^verbatim>\<open>p_onset\<close> and \<^verbatim>\<open>s_onset\<close> announce.
\<close>

theorem onset_natural_log_example:
  "onset std_lib [[1, 1, 1]] 1 2 True = Inr [[0, ln 2, 0]] \<and> ln (2::real) \<noteq> log 10 2"
proof -
  have r: "py_round 1 = 1" "py_round 2 = 2"
    using py_round_of_int [of 1] py_round_of_int [of 2] by simp_all
  have "sta_lta_centred [1, 1, 1] 1 2 = Inr [0, 1, 0]"
    using sta_lta_centred_pos [of 1 2 "[1, 1, 1]"]
    by (simp add: upt_rec cumsum_def dtiny_def Let_def)
  then have "onset std_lib [[1, 1, 1]] 1 2 True = Inr [[0, ln 2, 0]]"
    by (simp add: onset_def onset_row_def r setslice_whole)
  with ln2_neq_log10 show ?thesis by simp
qed

subsection \<open>The filter and the onset methods\<close>

text \<open>What a successful call of \<open>filter_sig\<close>, \<open>p_onset\<close> and \<open>s_onset\<close> has computed.\<close>

lemma filter_sig_Inr:
  assumes "filter_sig L sig rate lc hc ord = Inr f"
  shows "rate \<noteq> 0 \<and> (\<exists>b1 a1. butter L ord [2 * lc / of_int rate, 2 * hc / of_int rate] = Inr (b1, a1)
           \<and> mapM_res (filter_row L b1 a1) sig = Inr f)"
  using assms by (auto simp add: filter_sig_def bind_res_eq_Inr split: if_splits)

lemma p_onset_Inr:
  assumes "p_onset L self = Inr (p, self')"
  shows "\<exists>z fz. sigz self = Some z
           \<and> filter_sig L z (sampling_rate self) (fst (p_bp_filter self))
                (fst (snd (p_bp_filter self))) (snd (snd (p_bp_filter self))) = Inr fz
           \<and> self' = self\<lparr>filt_sigz := Some fz\<rparr>
           \<and> mapM_res (onset_row L (window_samples (fst (p_onset_win self)) (sampling_rate self))
                                    (window_samples (snd (p_onset_win self)) (sampling_rate self))
                                    (onset_centred self)) fz = Inr p"
  using assms
  by (auto simp add: p_onset_def onset_def Let_def bind_res_eq_Inr split: prod.splits option.splits)

lemma s_onset_Inr:
  assumes "s_onset L self = Inr (s, self')"
  shows "\<exists>e n fe fn eo no ss. sige self = Some e \<and> sign self = Some n
           \<and> filter_sig L e (sampling_rate self) (fst (s_bp_filter self))
                (fst (snd (s_bp_filter self))) (snd (snd (s_bp_filter self))) = Inr fe
           \<and> filter_sig L n (sampling_rate self) (fst (s_bp_filter self))
                (fst (snd (s_bp_filter self))) (snd (snd (s_bp_filter self))) = Inr fn
           \<and> self' = self\<lparr>filt_sige := Some fe, filt_sign := Some fn\<rparr>
           \<and> mapM_res (onset_row L (window_samples (fst (s_onset_win self)) (sampling_rate self))
                                    (window_samples (snd (s_onset_win self)) (sampling_rate self))
                                    (onset_centred self)) fe = Inr eo
           \<and> mapM_res (onset_row L (window_samples (fst (s_onset_win self)) (sampling_rate self))
                                    (window_samples (snd (s_onset_win self)) (sampling_rate self))
                                    (onset_centred self)) fn = Inr no
           \<and> np_binop2 (+) (map (map (\<lambda>v. v ^ 2)) eo) (map (map (\<lambda>v. v ^ 2)) no) = Inr ss
           \<and> s = map (map (\<lambda>v. sqrt (v / 2))) ss"
  using assms
  by (auto simp add: s_onset_def onset_def Let_def bind_res_eq_Inr split: prod.splits option.splits)

lemma np_binop2_matched:
  assumes "np_binop2 f xss yss = Inr zss" "length xss = length yss"
    and "ch < length xss" "length (xss ! ch) = length (yss ! ch)"
  shows "length zss = length xss \<and> zss ! ch = map2 f (xss ! ch) (yss ! ch)"
proof -
  have m: "mapM_res (\<lambda>(xs, ys). np_binop f xs ys) (zip xss yss) = Inr zss"
    using assms(1,2) by (simp add: np_binop2_def)
  have "length zss = length xss"
    using mapM_res_length [OF m] assms(2) by simp
  moreover have "np_binop f (xss ! ch) (yss ! ch) = Inr (zss ! ch)"
    using mapM_res_nth [OF m, of ch] assms(2,3) by simp
  ultimately show ?thesis
    using assms(4) by (simp add: np_binop_def)
qed

lemma onset_of_int:
  "onset L sig (of_int stw) (of_int ltw) c = mapM_res (onset_row L stw ltw c) sig"
  by (simp add: onset_def)

lemma onset_row_zero_sum:
  "sum_list row = 0 \<Longrightarrow> onset_row L stw ltw c row = Inr (replicate (length row) 0)"
  by (simp add: onset_row_def)

lemma setslice_whole_zero:
  assumes "setslice (replicate m (0::real)) None None p = Inr r" "\<forall>v \<in> set p. v = 0"
  shows "r = replicate m 0"
proof -
  have p: "p = replicate (length p) 0"
    using assms(2) by (simp add: replicate_length_same)
  have "hd p = 0" if "length p = 1"
    using that assms(2) by (cases p) simp_all
  with assms(1) p show ?thesis
    by (auto simp add: setslice_def slice_bounds_def split: if_splits)
qed

lemma np_binop_mult_zero:
  assumes "np_binop (*) (replicate m (0::real)) tap = Inr p"
  shows "\<forall>v \<in> set p. v = 0"
proof -
  have "hd (replicate m (0::real)) = 0" if "m = 1"
    using that by simp
  with assms show ?thesis
    by (auto simp add: np_binop_def set_zip split: if_splits)
qed

lemma filter_row_zero:
  assumes "lfilter_keeps_zero L" "filter_row L b1 a1 (replicate m 0) = Inr r"
  shows "r = replicate m 0"
proof (cases m)
  case 0
  with assms(2) show ?thesis by (simp add: filter_row_def)
next
  case (Suc k)
  let ?z = "replicate m (0::real)"
  have c: "?z = 0 # replicate k 0"
    using Suc by simp
  have "filter_row L b1 a1 ?z =
          bind_res (cosine_taper L (length ?z) (1 / 10))
            (\<lambda>tap. bind_res (np_binop (*) ?z tap)
            (\<lambda>p. bind_res (setslice ?z None None p)
            (\<lambda>r2. bind_res (lfilter L b1 a1 (rev r2))
            (\<lambda>y1. bind_res (setslice r2 None None (rev y1))
            (\<lambda>r3. bind_res (lfilter L b1 a1 r3)
            (\<lambda>y2. setslice r3 None None y2))))))"
    unfolding c by (simp add: filter_row_def Let_def)
  with assms(2) obtain tap p r2 y1 r3 y2 where
    p: "np_binop (*) ?z tap = Inr p"
    and r2: "setslice ?z None None p = Inr r2"
    and y1: "lfilter L b1 a1 (rev r2) = Inr y1"
    and r3: "setslice r2 None None (rev y1) = Inr r3"
    and y2: "lfilter L b1 a1 r3 = Inr y2"
    and r: "setslice r3 None None y2 = Inr r"
    by (auto simp only: bind_res_eq_Inr)
  have z2: "r2 = ?z"
    using setslice_whole_zero [OF r2 np_binop_mult_zero [OF p]] .
  have zy1: "y1 = ?z"
    using y1 assms(1) unfolding z2 lfilter_keeps_zero_def by auto
  have z3: "r3 = ?z"
    using setslice_whole_zero [of m "rev y1" r3] r3 unfolding z2 zy1 by simp
  have zy2: "y2 = ?z"
    using y2 assms(1) unfolding z3 lfilter_keeps_zero_def by auto
  show ?thesis
    using setslice_whole_zero [of m y2 r] r unfolding z3 zy2 by simp
qed

lemma filter_sig_zero_row:
  assumes "lfilter_keeps_zero L" "filter_sig L z rate lc hc ord = Inr fz"
    and "ch < length z" "z ! ch = replicate (length (z ! ch)) 0"
  shows "fz ! ch = z ! ch"
proof -
  from filter_sig_Inr [OF assms(2)] obtain b1 a1 where
    m: "mapM_res (filter_row L b1 a1) z = Inr fz" by blast
  have "filter_row L b1 a1 (z ! ch) = Inr (fz ! ch)"
    using mapM_res_nth [OF m assms(3)] .
  then have "filter_row L b1 a1 (replicate (length (z ! ch)) 0) = Inr (fz ! ch)"
    using assms(4) by simp
  from filter_row_zero [OF assms(1) this] assms(4) show ?thesis by simp
qed

lemma filter_sig_length:
  "filter_sig L z rate lc hc ord = Inr fz \<Longrightarrow> length fz = length z"
  using filter_sig_Inr mapM_res_length by blast

text \<open>The methods on the example object, with the library instance.\<close>

lemma lfilter_run_id: "lfilter_run [1] [1] xh yh xs = rev yh @ xs"
  by (induction xs arbitrary: xh yh) (simp_all add: Let_def)

lemma std_filter_row:
  "row \<noteq> [] \<Longrightarrow> filter_row std_lib [1] [1] row = Inr (map (\<lambda>x. x - hd row) row)"
  by (cases row)
     (simp_all add: filter_row_def std_lib_def unit_taper_def std_lfilter_def lfilter_run_id
        np_binop_def setslice_whole Let_def zip_replicate2 map2_map_upt comp_def)

lemma py_round_1_2: "py_round 1 = 1" "py_round 2 = 2"
  using py_round_of_int [of 1] py_round_of_int [of 2] by simp_all

lemma example_windows: "window_samples (3 / 4) 1 = 1" "window_samples (7 / 4) 1 = 2"
  by (simp_all add: window_samples_def py_int_def)

lemma example_filter_z:
  "filter_sig std_lib [[1, - 1, 1, - 1], [0, 1, - 1, 0], [0, 0, 0, 0]] 1 (1 / 10) (2 / 5) 2
     = Inr [[0, - 2, 0, - 2], [0, 1, - 1, 0], [0, 0, 0, 0]]"
  by (simp add: filter_sig_def range_checked_design_def std_filter_row std_lib_def [THEN arg_cong [of _ _ butter]])

lemma example_filter_n:
  "filter_sig std_lib [[0, 1, 0, 2], [0, 2, - 2, 0], [0, 0, 0, 0]] 1 (1 / 10) (2 / 5) 2
     = Inr [[0, 1, 0, 2], [0, 2, - 2, 0], [0, 0, 0, 0]]"
  by (simp add: filter_sig_def range_checked_design_def std_filter_row std_lib_def [THEN arg_cong [of _ _ butter]])

lemma example_onset_row_1: "onset_row std_lib 1 2 True [0, - 2, 0, - 2] = Inr [0, 0, ln 3, 0]"
  using sta_lta_centred_pos [of 1 2 "[0, - 2, 0, - 2]"]
  by (simp add: onset_row_def setslice_whole upt_rec cumsum_def dtiny_def Let_def)

lemma example_onset_row_2: "onset_row std_lib 1 2 True [0, 1, 0, 2] = Inr [0, 0, ln 9, 0]"
  using sta_lta_centred_pos [of 1 2 "[0, 1, 0, 2]"]
  by (simp add: onset_row_def setslice_whole upt_rec cumsum_def dtiny_def Let_def)

lemma example_onset_z:
  "onset std_lib [[0, - 2, 0, - 2], [0, 1, - 1, 0], [0, 0, 0, 0]] 1 2 True
     = Inr [[0, 0, ln 3, 0], [0, 0, 0, 0], [0, 0, 0, 0]]"
  by (simp add: onset_def py_round_1_2 example_onset_row_1 onset_row_zero_sum)

lemma example_onset_n:
  "onset std_lib [[0, 1, 0, 2], [0, 2, - 2, 0], [0, 0, 0, 0]] 1 2 True
     = Inr [[0, 0, ln 9, 0], [0, 0, 0, 0], [0, 0, 0, 0]]"
  by (simp add: onset_def py_round_1_2 example_onset_row_2 onset_row_zero_sum)

lemma example_p_onset:
  "p_onset std_lib example_obj
     = Inr ([[0, 0, ln 3, 0], [0, 0, 0, 0], [0, 0, 0, 0]],
            example_obj\<lparr>filt_sigz := Some [[0, - 2, 0, - 2], [0, 1, - 1, 0], [0, 0, 0, 0]]\<rparr>)"
  by (simp add: p_onset_def example_obj_def CentredSTALTAOnset_init_def ClassicSTALTAOnset_init_def
      example_windows example_filter_z example_onset_z)

lemma example_s_onset:
  "s_onset std_lib example_obj
     = Inr ([[0, 0, sqrt (((ln 3)\<^sup>2 + (ln 9)\<^sup>2) / 2), 0], [0, 0, 0, 0], [0, 0, 0, 0]],
            example_obj\<lparr>filt_sige := Some [[0, - 2, 0, - 2], [0, 1, - 1, 0], [0, 0, 0, 0]],
                         filt_sign := Some [[0, 1, 0, 2], [0, 2, - 2, 0], [0, 0, 0, 0]]\<rparr>)"
  by (simp add: s_onset_def example_obj_def CentredSTALTAOnset_init_def ClassicSTALTAOnset_init_def
      example_windows example_filter_z example_filter_n example_onset_z example_onset_n
      np_binop2_def np_binop_def)

lemma sum_list_map2_zero:
  "\<forall>v \<in> set xs. v = (0::real) \<Longrightarrow> sum_list (map2 (*) b xs) = 0"
proof (induction b arbitrary: xs)
  case Nil
  then show ?case by simp
next
  case (Cons c b)
  then show ?case by (cases xs) simp_all
qed

lemma lfilter_run_zeros:
  "\<forall>v \<in> set xh. v = 0 \<Longrightarrow> \<forall>v \<in> set yh. v = 0 \<Longrightarrow>
     lfilter_run b a xh yh (replicate k 0) = replicate (length yh + k) 0"
proof (induction k arbitrary: xh yh)
  case 0
  then have "yh = replicate (length yh) 0"
    by (simp add: replicate_length_same)
  then have "rev yh = replicate (length yh) 0"
    by (metis rev_replicate)
  then show ?case by simp
next
  case (Suc k)
  have x: "sum_list (map2 (*) b (0 # xh)) = 0"
    using Suc.prems(1) by (intro sum_list_map2_zero) simp
  have y: "sum_list (map2 (*) (tl a) yh) = 0"
    using Suc.prems(2) by (intro sum_list_map2_zero) simp
  have "lfilter_run b a (0 # xh) (0 # yh) (replicate k 0) = replicate (length (0 # yh) + k) 0"
    using Suc.prems by (intro Suc.IH) simp_all
  then show ?case
    by (simp add: x y Let_def)
qed

lemma std_lib_keeps_zero: "lfilter_keeps_zero std_lib"
  unfolding lfilter_keeps_zero_def std_lib_def std_lfilter_def
  using lfilter_run_zeros [of "[]" "[]"] by (auto split: if_splits)

text \<open>
  Claim C3, as the code has it. \<open>p_onset\<close> and \<open>s_onset\<close> always filter first, and
  \<open>onset\<close> tests the sum of the filtered channel: a channel whose filtered samples sum
  to exactly zero gets an all-zero onset row (in \<open>s_onset\<close>, when both filtered
  horizontal rows of equal length do). An all-zero input row gives an all-zero output
  row when the call returns and the library's \<open>lfilter\<close> keeps the zero signal.
\<close>

theorem zero_sum_channel_onset:
  "(p_onset L self = Inr (p, self1) \<longrightarrow>
      (\<exists>z fz. sigz self = Some z \<and> filt_sigz self1 = Some fz
         \<and> length fz = length z \<and> length p = length z
         \<and> (\<forall>ch<length z. sum_list (fz ! ch) = 0 \<longrightarrow> p ! ch = replicate (length (fz ! ch)) 0)
         \<and> (lfilter_keeps_zero L \<longrightarrow>
              (\<forall>ch<length z. z ! ch = replicate (length (z ! ch)) 0 \<longrightarrow>
                  p ! ch = replicate (length (z ! ch)) 0))))
   \<and> (s_onset L self = Inr (s, self2) \<longrightarrow>
      (\<exists>e n fe fn. sige self = Some e \<and> sign self = Some n
         \<and> filt_sige self2 = Some fe \<and> filt_sign self2 = Some fn
         \<and> length fe = length e \<and> length fn = length n
         \<and> (length e = length n \<longrightarrow> length s = length e
              \<and> (\<forall>ch<length e. sum_list (fe ! ch) = 0 \<and> sum_list (fn ! ch) = 0
                      \<and> length (fe ! ch) = length (fn ! ch) \<longrightarrow>
                    s ! ch = replicate (length (fe ! ch)) 0)
              \<and> (lfilter_keeps_zero L \<longrightarrow>
                   (\<forall>ch<length e. e ! ch = replicate (length (e ! ch)) 0
                        \<and> n ! ch = replicate (length (e ! ch)) 0 \<longrightarrow>
                      s ! ch = replicate (length (e ! ch)) 0)))))"
proof (intro conjI impI)
  assume a: "p_onset L self = Inr (p, self1)"
  from p_onset_Inr [OF a] obtain z fz where
    z: "sigz self = Some z"
    and f: "filter_sig L z (sampling_rate self) (fst (p_bp_filter self))
              (fst (snd (p_bp_filter self))) (snd (snd (p_bp_filter self))) = Inr fz"
    and s1: "self1 = self\<lparr>filt_sigz := Some fz\<rparr>"
    and m: "mapM_res (onset_row L (window_samples (fst (p_onset_win self)) (sampling_rate self))
                                  (window_samples (snd (p_onset_win self)) (sampling_rate self))
                                  (onset_centred self)) fz = Inr p"
    by blast
  have lf: "length fz = length z" using filter_sig_length [OF f] .
  have lp: "length p = length z" using mapM_res_length [OF m] lf by simp
  have zs: "p ! ch = replicate (length (fz ! ch)) 0" if "ch < length z" "sum_list (fz ! ch) = 0" for ch
    using mapM_res_nth [OF m, of ch] that lf by (simp add: onset_row_zero_sum)
  have zr: "p ! ch = replicate (length (z ! ch)) 0"
    if "lfilter_keeps_zero L" "ch < length z" "z ! ch = replicate (length (z ! ch)) 0" for ch
  proof -
    have e: "fz ! ch = z ! ch" using filter_sig_zero_row [OF that(1) f that(2,3)] .
    then have "sum_list (fz ! ch) = 0" using that(3) by (metis sum_list_replicate mult_zero_right)
    from zs [OF that(2) this] e show ?thesis by simp
  qed
  show "\<exists>z fz. sigz self = Some z \<and> filt_sigz self1 = Some fz
         \<and> length fz = length z \<and> length p = length z
         \<and> (\<forall>ch<length z. sum_list (fz ! ch) = 0 \<longrightarrow> p ! ch = replicate (length (fz ! ch)) 0)
         \<and> (lfilter_keeps_zero L \<longrightarrow>
              (\<forall>ch<length z. z ! ch = replicate (length (z ! ch)) 0 \<longrightarrow>
                  p ! ch = replicate (length (z ! ch)) 0))"
    using z s1 lf lp zs zr by (intro exI [of _ z] exI [of _ fz]) simp
next
  assume a: "s_onset L self = Inr (s, self2)"
  from s_onset_Inr [OF a] obtain e n fe fn eo no ss where
    e: "sige self = Some e" and n: "sign self = Some n"
    and fe: "filter_sig L e (sampling_rate self) (fst (s_bp_filter self))
                (fst (snd (s_bp_filter self))) (snd (snd (s_bp_filter self))) = Inr fe"
    and fn: "filter_sig L n (sampling_rate self) (fst (s_bp_filter self))
                (fst (snd (s_bp_filter self))) (snd (snd (s_bp_filter self))) = Inr fn"
    and s2: "self2 = self\<lparr>filt_sige := Some fe, filt_sign := Some fn\<rparr>"
    and me: "mapM_res (onset_row L (window_samples (fst (s_onset_win self)) (sampling_rate self))
                                    (window_samples (snd (s_onset_win self)) (sampling_rate self))
                                    (onset_centred self)) fe = Inr eo"
    and mn: "mapM_res (onset_row L (window_samples (fst (s_onset_win self)) (sampling_rate self))
                                    (window_samples (snd (s_onset_win self)) (sampling_rate self))
                                    (onset_centred self)) fn = Inr no"
    and ss: "np_binop2 (+) (map (map (\<lambda>v. v ^ 2)) eo) (map (map (\<lambda>v. v ^ 2)) no) = Inr ss"
    and s: "s = map (map (\<lambda>v. sqrt (v / 2))) ss"
    by blast
  have lfe: "length fe = length e" using filter_sig_length [OF fe] .
  have lfn: "length fn = length n" using filter_sig_length [OF fn] .
  have leo: "length eo = length e" using mapM_res_length [OF me] lfe by simp
  have lno: "length no = length n" using mapM_res_length [OF mn] lfn by simp
  have zs: "length s = length e \<and> s ! ch = replicate (length (fe ! ch)) 0"
    if "length e = length n" "ch < length e" "sum_list (fe ! ch) = 0" "sum_list (fn ! ch) = 0"
      "length (fe ! ch) = length (fn ! ch)" for ch
  proof -
    have re: "eo ! ch = replicate (length (fe ! ch)) 0"
      using mapM_res_nth [OF me, of ch] that lfe by (simp add: onset_row_zero_sum)
    have rn: "no ! ch = replicate (length (fe ! ch)) 0"
      using mapM_res_nth [OF mn, of ch] that lfn by (simp add: onset_row_zero_sum)
    have "length ss = length (map (map (\<lambda>v. v ^ 2)) eo)
            \<and> ss ! ch = map2 (+) (map (map (\<lambda>v. v ^ 2)) eo ! ch) (map (map (\<lambda>v. v ^ 2)) no ! ch)"
      using np_binop2_matched [OF ss, of ch] that leo lno re rn by simp
    then have "length ss = length e" "ss ! ch = replicate (length (fe ! ch)) 0"
      using that leo lno re rn by (simp_all add: map_replicate_const)
    then show ?thesis
      using s that by simp
  qed
  have ls: "length s = length e" if "length e = length n"
  proof -
    have m: "mapM_res (\<lambda>(xs, ys). np_binop (+) xs ys)
               (zip (map (map (\<lambda>v. v ^ 2)) eo) (map (map (\<lambda>v. v ^ 2)) no)) = Inr ss"
      using ss that leo lno by (simp add: np_binop2_def)
    show ?thesis
      using mapM_res_length [OF m] s that leo lno by simp
  qed
  have zr: "s ! ch = replicate (length (e ! ch)) 0"
    if "length e = length n" "lfilter_keeps_zero L" "ch < length e"
      "e ! ch = replicate (length (e ! ch)) 0" "n ! ch = replicate (length (e ! ch)) 0" for ch
  proof -
    have n': "n ! ch = replicate (length (n ! ch)) 0"
      using that(5) by (metis length_replicate)
    have ln: "length (n ! ch) = length (e ! ch)"
      using that(5) by (metis length_replicate)
    have ee: "fe ! ch = e ! ch" using filter_sig_zero_row [OF that(2) fe that(3,4)] .
    have nn: "fn ! ch = n ! ch" using filter_sig_zero_row [OF that(2) fn _ n'] that(1,3) by simp
    have "sum_list (fe ! ch) = 0" using ee that(4) by (metis sum_list_replicate mult_zero_right)
    moreover have "sum_list (fn ! ch) = 0" using nn n' by (metis sum_list_replicate mult_zero_right)
    moreover have "length (fe ! ch) = length (fn ! ch)" using ee nn ln by simp
    ultimately show ?thesis
      using zs [OF that(1,3)] ee by simp
  qed
  show "\<exists>e n fe fn. sige self = Some e \<and> sign self = Some n
         \<and> filt_sige self2 = Some fe \<and> filt_sign self2 = Some fn
         \<and> length fe = length e \<and> length fn = length n
         \<and> (length e = length n \<longrightarrow> length s = length e
              \<and> (\<forall>ch<length e. sum_list (fe ! ch) = 0 \<and> sum_list (fn ! ch) = 0
                      \<and> length (fe ! ch) = length (fn ! ch) \<longrightarrow>
                    s ! ch = replicate (length (fe ! ch)) 0)
              \<and> (lfilter_keeps_zero L \<longrightarrow>
                   (\<forall>ch<length e. e ! ch = replicate (length (e ! ch)) 0
                        \<and> n ! ch = replicate (length (e ! ch)) 0 \<longrightarrow>
                      s ! ch = replicate (length (e ! ch)) 0)))"
    using e n s2 lfe lfn ls zs zr
    by (intro exI [of _ e] exI [of _ n] exI [of _ fe] exI [of _ fn]) simp
qed

theorem zero_sum_channel_onset_witness:
  "p_onset std_lib example_obj
     = Inr ([[0, 0, ln 3, 0], [0, 0, 0, 0], [0, 0, 0, 0]],
            example_obj\<lparr>filt_sigz := Some [[0, - 2, 0, - 2], [0, 1, - 1, 0], [0, 0, 0, 0]]\<rparr>)
   \<and> s_onset std_lib example_obj
     = Inr ([[0, 0, sqrt (((ln 3)\<^sup>2 + (ln 9)\<^sup>2) / 2), 0], [0, 0, 0, 0], [0, 0, 0, 0]],
            example_obj\<lparr>filt_sige := Some [[0, - 2, 0, - 2], [0, 1, - 1, 0], [0, 0, 0, 0]],
                         filt_sign := Some [[0, 1, 0, 2], [0, 2, - 2, 0], [0, 0, 0, 0]]\<rparr>)
   \<and> lfilter_keeps_zero std_lib
   \<and> sum_list ([[0, - 2, 0, - 2], [0, 1, - 1, 0], [0, 0, 0, 0 :: real]] ! 1) = 0
   \<and> (\<exists>z fz. sigz example_obj = Some z
         \<and> filt_sigz (example_obj\<lparr>filt_sigz := Some [[0, - 2, 0, - 2], [0, 1, - 1, 0], [0, 0, 0, 0]]\<rparr>) = Some fz
         \<and> [[0, 0, ln 3, 0], [0, 0, 0, 0], [0, 0, 0, 0 :: real]] ! 1 = replicate (length (fz ! 1)) 0
         \<and> [[0, 0, ln 3, 0], [0, 0, 0, 0], [0, 0, 0, 0 :: real]] ! 2 = replicate (length (z ! 2)) 0)
   \<and> (\<exists>e fe. sige example_obj = Some e
         \<and> filt_sige (example_obj\<lparr>filt_sige := Some [[0, - 2, 0, - 2], [0, 1, - 1, 0], [0, 0, 0, 0]],
                         filt_sign := Some [[0, 1, 0, 2], [0, 2, - 2, 0], [0, 0, 0, 0]]\<rparr>) = Some fe
         \<and> [[0, 0, sqrt (((ln 3)\<^sup>2 + (ln 9)\<^sup>2) / 2), 0], [0, 0, 0, 0], [0, 0, 0, 0 :: real]] ! 1
               = replicate (length (fe ! 1)) 0
         \<and> [[0, 0, sqrt (((ln 3)\<^sup>2 + (ln 9)\<^sup>2) / 2), 0], [0, 0, 0, 0], [0, 0, 0, 0 :: real]] ! 2
               = replicate (length (e ! 2)) 0)"
proof -
  let ?P = "[[0, 0, ln 3, 0], [0, 0, 0, 0], [0, 0, 0, 0 :: real]]"
  let ?S = "[[0, 0, sqrt (((ln 3)\<^sup>2 + (ln 9)\<^sup>2) / 2), 0], [0, 0, 0, 0], [0, 0, 0, 0 :: real]]"
  let ?O1 = "example_obj\<lparr>filt_sigz := Some [[0, - 2, 0, - 2], [0, 1, - 1, 0], [0, 0, 0, 0]]\<rparr>"
  let ?O2 = "example_obj\<lparr>filt_sige := Some [[0, - 2, 0, - 2], [0, 1, - 1, 0], [0, 0, 0, 0]],
                         filt_sign := Some [[0, 1, 0, 2], [0, 2, - 2, 0], [0, 0, 0, 0]]\<rparr>"
  note t = zero_sum_channel_onset [of std_lib example_obj ?P ?O1 ?S ?O2]
  from t example_p_onset obtain z fz where
    z: "sigz example_obj = Some z" "filt_sigz ?O1 = Some fz" "length z = 3"
    and pz: "\<forall>ch<length z. sum_list (fz ! ch) = 0 \<longrightarrow> ?P ! ch = replicate (length (fz ! ch)) 0"
    and pr: "lfilter_keeps_zero std_lib \<longrightarrow>
              (\<forall>ch<length z. z ! ch = replicate (length (z ! ch)) 0 \<longrightarrow>
                  ?P ! ch = replicate (length (z ! ch)) 0)"
    by auto
  have zv: "z = [[1, - 1, 1, - 1], [0, 1, - 1, 0], [0, 0, 0, 0]]"
    using z(1) by (simp add: example_obj_def)
  have fv: "fz = [[0, - 2, 0, - 2], [0, 1, - 1, 0], [0, 0, 0, 0]]"
    using z(2) by simp
  have p1: "?P ! 1 = replicate (length (fz ! 1)) 0"
    using pz z(3) unfolding fv by simp
  have p2: "?P ! 2 = replicate (length (z ! 2)) 0"
    using pr std_lib_keeps_zero z(3) unfolding zv by simp
  from t example_s_onset obtain e n fe fn where
    e: "sige example_obj = Some e" "sign example_obj = Some n"
       "filt_sige ?O2 = Some fe" "filt_sign ?O2 = Some fn" "length e = 3"
    and sz: "length e = length n \<longrightarrow> length ?S = length e
              \<and> (\<forall>ch<length e. sum_list (fe ! ch) = 0 \<and> sum_list (fn ! ch) = 0
                      \<and> length (fe ! ch) = length (fn ! ch) \<longrightarrow>
                    ?S ! ch = replicate (length (fe ! ch)) 0)
              \<and> (lfilter_keeps_zero std_lib \<longrightarrow>
                   (\<forall>ch<length e. e ! ch = replicate (length (e ! ch)) 0
                        \<and> n ! ch = replicate (length (e ! ch)) 0 \<longrightarrow>
                      ?S ! ch = replicate (length (e ! ch)) 0))"
    by auto
  have ev: "e = [[1, - 1, 1, - 1], [0, 1, - 1, 0], [0, 0, 0, 0]]"
    "n = [[0, 1, 0, 2], [0, 2, - 2, 0], [0, 0, 0, 0]]"
    using e(1,2) by (simp_all add: example_obj_def)
  have fev: "fe = [[0, - 2, 0, - 2], [0, 1, - 1, 0], [0, 0, 0, 0]]"
    "fn = [[0, 1, 0, 2], [0, 2, - 2, 0], [0, 0, 0, 0]]"
    using e(3,4) by simp_all
  have s1: "?S ! 1 = replicate (length (fe ! 1)) 0"
    using sz unfolding ev fev by simp
  have s2: "?S ! 2 = replicate (length (e ! 2)) 0"
    using sz std_lib_keeps_zero unfolding ev fev by simp
  have A: "\<exists>z fz. sigz example_obj = Some z \<and> filt_sigz ?O1 = Some fz
         \<and> ?P ! 1 = replicate (length (fz ! 1)) 0 \<and> ?P ! 2 = replicate (length (z ! 2)) 0"
    using z(1,2) p1 p2 by blast
  have B: "\<exists>e fe. sige example_obj = Some e \<and> filt_sige ?O2 = Some fe
         \<and> ?S ! 1 = replicate (length (fe ! 1)) 0 \<and> ?S ! 2 = replicate (length (e ! 2)) 0"
    using e(1,3) s1 s2 by blast
  have C: "sum_list ([[0, - 2, 0, - 2], [0, 1, - 1, 0], [0, 0, 0, 0 :: real]] ! 1) = 0"
    by simp
  show ?thesis
    by (intro conjI) (rule example_p_onset example_s_onset std_lib_keeps_zero A B C)+
qed

text \<open>
  A raw channel that sums to zero is not bypassed: the first Z channel of the example sums
  to zero, its filtered row \<open>[0, -2, 0, -2]\<close> does not, and its onset row is not zero.
\<close>

theorem zero_sum_channel_onset_counterexample:
  "sigz example_obj = Some [[1, - 1, 1, - 1], [0, 1, - 1, 0], [0, 0, 0, 0]]
   \<and> sum_list [1, - 1, 1, - 1 :: real] = 0
   \<and> p_onset std_lib example_obj
     = Inr ([[0, 0, ln 3, 0], [0, 0, 0, 0], [0, 0, 0, 0]],
            example_obj\<lparr>filt_sigz := Some [[0, - 2, 0, - 2], [0, 1, - 1, 0], [0, 0, 0, 0]]\<rparr>)
   \<and> ln (3::real) \<noteq> 0"
  using example_p_onset by (simp add: example_obj_def)

subsection \<open>The window lengths\<close>

lemma example_config:
  "p_onset_win example_obj = (3 / 4, 7 / 4)" "s_onset_win example_obj = (3 / 4, 7 / 4)"
  "sampling_rate example_obj = 1" "onset_centred example_obj = True"
  by (simp_all add: example_obj_def CentredSTALTAOnset_init_def ClassicSTALTAOnset_init_def)




subsection \<open>The combination of the horizontal components\<close>

text \<open>
  Claim C6. When \<open>s_onset\<close> returns, its result is built from the onset arrays \<open>e\<close> and
  \<open>n\<close> of the filtered east and north signals, and where the two have the same shape,
  the result has that shape and its entry at every index is
  \<open>sqrt((e[i]^2 + n[i]^2) / 2)\<close>.
\<close>

theorem s_onset_rms:
  assumes "s_onset L self = Inr (s, self')"
  shows "\<exists>fe fn e n. filt_sige self' = Some fe \<and> filt_sign self' = Some fn
           \<and> onset L fe (of_int (window_samples (fst (s_onset_win self)) (sampling_rate self)))
                        (of_int (window_samples (snd (s_onset_win self)) (sampling_rate self)))
                        (onset_centred self) = Inr e
           \<and> onset L fn (of_int (window_samples (fst (s_onset_win self)) (sampling_rate self)))
                        (of_int (window_samples (snd (s_onset_win self)) (sampling_rate self)))
                        (onset_centred self) = Inr n
           \<and> (length e = length n \<and> (\<forall>ch<length e. length (e ! ch) = length (n ! ch)) \<longrightarrow>
                length s = length e
                \<and> (\<forall>ch<length e. length (s ! ch) = length (e ! ch)
                      \<and> (\<forall>i<length (e ! ch).
                            s ! ch ! i = sqrt (((e ! ch ! i)\<^sup>2 + (n ! ch ! i)\<^sup>2) / 2))))"
proof -
  from s_onset_Inr [OF assms] obtain fe fn eo no ss where
    s2: "self' = self\<lparr>filt_sige := Some fe, filt_sign := Some fn\<rparr>"
    and me: "mapM_res (onset_row L (window_samples (fst (s_onset_win self)) (sampling_rate self))
                                    (window_samples (snd (s_onset_win self)) (sampling_rate self))
                                    (onset_centred self)) fe = Inr eo"
    and mn: "mapM_res (onset_row L (window_samples (fst (s_onset_win self)) (sampling_rate self))
                                    (window_samples (snd (s_onset_win self)) (sampling_rate self))
                                    (onset_centred self)) fn = Inr no"
    and ss: "np_binop2 (+) (map (map (\<lambda>v. v ^ 2)) eo) (map (map (\<lambda>v. v ^ 2)) no) = Inr ss"
    and s: "s = map (map (\<lambda>v. sqrt (v / 2))) ss"
    by blast
  have rms: "length s = length eo
      \<and> (\<forall>ch<length eo. length (s ! ch) = length (eo ! ch)
            \<and> (\<forall>i<length (eo ! ch). s ! ch ! i = sqrt (((eo ! ch ! i)\<^sup>2 + (no ! ch ! i)\<^sup>2) / 2)))"
    if m: "length eo = length no" "\<forall>ch<length eo. length (eo ! ch) = length (no ! ch)"
  proof (intro conjI allI impI)
    have z: "mapM_res (\<lambda>(xs, ys). np_binop (+) xs ys)
               (zip (map (map (\<lambda>v. v ^ 2)) eo) (map (map (\<lambda>v. v ^ 2)) no)) = Inr ss"
      using ss m(1) by (simp add: np_binop2_def)
    show ls: "length s = length eo"
      using mapM_res_length [OF z] s m(1) by simp
    fix ch assume ch: "ch < length eo"
    have row: "ss ! ch = map2 (+) (map (\<lambda>v. v ^ 2) (eo ! ch)) (map (\<lambda>v. v ^ 2) (no ! ch))"
      using np_binop2_matched [OF ss, of ch] m ch by simp
    have lss: "length ss = length eo"
      using ls s by simp
    show "length (s ! ch) = length (eo ! ch)"
      using s row ch lss m by simp
    fix i assume i: "i < length (eo ! ch)"
    show "s ! ch ! i = sqrt (((eo ! ch ! i)\<^sup>2 + (no ! ch ! i)\<^sup>2) / 2)"
      using s row ch lss m i by simp
  qed
  show ?thesis
    using s2 me mn rms
    by (intro exI [of _ fe] exI [of _ fn] exI [of _ eo] exI [of _ no]) (simp add: onset_of_int)
qed

theorem s_onset_rms_witness:
  "s_onset std_lib example_obj
     = Inr ([[0, 0, sqrt (((ln 3)\<^sup>2 + (ln 9)\<^sup>2) / 2), 0], [0, 0, 0, 0], [0, 0, 0, 0]],
            example_obj\<lparr>filt_sige := Some [[0, - 2, 0, - 2], [0, 1, - 1, 0], [0, 0, 0, 0]],
                         filt_sign := Some [[0, 1, 0, 2], [0, 2, - 2, 0], [0, 0, 0, 0]]\<rparr>)
   \<and> onset std_lib [[0, - 2, 0, - 2], [0, 1, - 1, 0], [0, 0, 0, 0]] 1 2 True
     = Inr [[0, 0, ln 3, 0], [0, 0, 0, 0], [0, 0, 0, 0]]
   \<and> onset std_lib [[0, 1, 0, 2], [0, 2, - 2, 0], [0, 0, 0, 0]] 1 2 True
     = Inr [[0, 0, ln 9, 0], [0, 0, 0, 0], [0, 0, 0, 0]]
   \<and> [[0, 0, sqrt (((ln 3)\<^sup>2 + (ln 9)\<^sup>2) / 2), 0], [0, 0, 0, 0], [0, 0, 0, 0 :: real]] ! 0 ! 2
     = sqrt ((([[0, 0, ln 3, 0], [0, 0, 0, 0], [0, 0, 0, 0 :: real]] ! 0 ! 2)\<^sup>2
              + ([[0, 0, ln 9, 0], [0, 0, 0, 0], [0, 0, 0, 0 :: real]] ! 0 ! 2)\<^sup>2) / 2)"
proof -
  let ?S = "[[0, 0, sqrt (((ln 3)\<^sup>2 + (ln 9)\<^sup>2) / 2), 0], [0, 0, 0, 0], [0, 0, 0, 0 :: real]]"
  let ?E = "[[0, 0, ln 3, 0], [0, 0, 0, 0], [0, 0, 0, 0 :: real]]"
  let ?N = "[[0, 0, ln 9, 0], [0, 0, 0, 0], [0, 0, 0, 0 :: real]]"
  let ?O2 = "example_obj\<lparr>filt_sige := Some [[0, - 2, 0, - 2], [0, 1, - 1, 0], [0, 0, 0, 0]],
                         filt_sign := Some [[0, 1, 0, 2], [0, 2, - 2, 0], [0, 0, 0, 0]]\<rparr>"
  from s_onset_rms [OF example_s_onset, unfolded example_config fst_conv snd_conv example_windows]
  obtain fe fn e n where
    f: "filt_sige ?O2 = Some fe" "filt_sign ?O2 = Some fn"
    and e: "onset std_lib fe (of_int 1) (of_int 2) True = Inr e"
    and n: "onset std_lib fn (of_int 1) (of_int 2) True = Inr n"
    and r: "length e = length n \<and> (\<forall>ch<length e. length (e ! ch) = length (n ! ch)) \<longrightarrow>
                length ?S = length e
                \<and> (\<forall>ch<length e. length (?S ! ch) = length (e ! ch)
                      \<and> (\<forall>i<length (e ! ch).
                            ?S ! ch ! i = sqrt (((e ! ch ! i)\<^sup>2 + (n ! ch ! i)\<^sup>2) / 2)))"
    by blast
  have fv: "fe = [[0, - 2, 0, - 2], [0, 1, - 1, 0], [0, 0, 0, 0]]"
    "fn = [[0, 1, 0, 2], [0, 2, - 2, 0], [0, 0, 0, 0]]"
    using f by simp_all
  have ev: "e = ?E" using e example_onset_z unfolding fv by simp
  have nv: "n = ?N" using n example_onset_n unfolding fv by simp
  have m: "length ?E = length ?N \<and> (\<forall>ch<length ?E. length (?E ! ch) = length (?N ! ch))"
    by (simp add: nth_Cons split: nat.splits)
  from r [unfolded ev nv] m
  have a: "\<forall>ch<length ?E. length (?S ! ch) = length (?E ! ch)
          \<and> (\<forall>i<length (?E ! ch). ?S ! ch ! i = sqrt (((?E ! ch ! i)\<^sup>2 + (?N ! ch ! i)\<^sup>2) / 2))"
    by blast
  have "0 < length ?E" by simp
  with a have b: "\<forall>i<length (?E ! 0). ?S ! 0 ! i = sqrt (((?E ! 0 ! i)\<^sup>2 + (?N ! 0 ! i)\<^sup>2) / 2)"
    by blast
  have "2 < length (?E ! 0)" by simp
  with b have v: "?S ! 0 ! 2 = sqrt (((?E ! 0 ! 2)\<^sup>2 + (?N ! 0 ! 2)\<^sup>2) / 2)"
    by blast
  show ?thesis
    by (intro conjI) (rule example_s_onset example_onset_z example_onset_n v)+
qed

subsection \<open>Invalid filter specifications\<close>

lemma setslice_Inl: "setslice xs lo hi ys = Inl e \<Longrightarrow> e = ValueError"
  by (auto simp add: setslice_def split: prod.splits if_splits)

lemma np_binop_Inl: "np_binop f xs ys = Inl e \<Longrightarrow> e = ValueError"
  by (auto simp add: np_binop_def split: if_splits)

lemma filter_row_Inl:
  assumes "filter_row L b1 a1 row = Inl e"
  shows "e = IndexError \<or> e = ValueError
           \<or> (\<exists>k q. cosine_taper L k q = Inl e) \<or> (\<exists>x. lfilter L b1 a1 x = Inl e)"
proof (cases row)
  case Nil
  with assms show ?thesis by (simp add: filter_row_def)
next
  case (Cons x0 xs)
  let ?r1 = "map (\<lambda>x. x - x0) row"
  have f: "filter_row L b1 a1 row =
          bind_res (cosine_taper L (length ?r1) (1 / 10))
            (\<lambda>tap. bind_res (np_binop (*) ?r1 tap)
            (\<lambda>p. bind_res (setslice ?r1 None None p)
            (\<lambda>r2. bind_res (lfilter L b1 a1 (rev r2))
            (\<lambda>y1. bind_res (setslice r2 None None (rev y1))
            (\<lambda>r3. bind_res (lfilter L b1 a1 r3)
            (\<lambda>y2. setslice r3 None None y2))))))"
    unfolding Cons by (simp add: filter_row_def Let_def)
  show ?thesis
  proof (cases "cosine_taper L (length ?r1) (1 / 10)")
    case (Inl e1)
    with assms f have "e1 = e" by simp
    with Inl show ?thesis by blast
  next
    case tap: (Inr tap)
    show ?thesis
    proof (cases "np_binop (*) ?r1 tap")
      case (Inl e1)
      with assms f tap have "e1 = e" by simp
      with Inl np_binop_Inl show ?thesis by blast
    next
      case p: (Inr p)
      show ?thesis
      proof (cases "setslice ?r1 None None p")
        case (Inl e1)
        with assms f tap p have "e1 = e" by simp
        with Inl setslice_Inl show ?thesis by blast
      next
        case r2: (Inr r2)
        show ?thesis
        proof (cases "lfilter L b1 a1 (rev r2)")
          case (Inl e1)
          with assms f tap p r2 have "e1 = e" by simp
          with Inl show ?thesis by blast
        next
          case y1: (Inr y1)
          show ?thesis
          proof (cases "setslice r2 None None (rev y1)")
            case (Inl e1)
            with assms f tap p r2 y1 have "e1 = e" by simp
            with Inl setslice_Inl show ?thesis by blast
          next
            case r3: (Inr r3)
            show ?thesis
            proof (cases "lfilter L b1 a1 r3")
              case (Inl e1)
              with assms f tap p r2 y1 r3 have "e1 = e" by simp
              with Inl show ?thesis by blast
            next
              case y2: (Inr y2)
              with assms f tap p r2 y1 r3 have "setslice r3 None None y2 = Inl e" by simp
              with setslice_Inl show ?thesis by blast
            qed
          qed
        qed
      qed
    qed
  qed
qed

text \<open>
  Claim C9, as the code has it. \<open>filter_sig\<close> validates nothing: for every
  specification, valid or not, a failure of the design routine reaches the caller
  unchanged, and \<open>InvalidFilterSpec\<close> is reported only if a library routine reports it.
\<close>

theorem filter_no_validation:
  "(rate \<noteq> 0 \<and> butter L ord [2 * lc / of_int rate, 2 * hc / of_int rate] = Inl e \<longrightarrow>
      filter_sig L sig rate lc hc ord = Inl e)
   \<and> ((\<forall>k w. butter L k w \<noteq> Inl InvalidFilterSpec)
        \<and> (\<forall>k q. cosine_taper L k q \<noteq> Inl InvalidFilterSpec)
        \<and> (\<forall>b a x. lfilter L b a x \<noteq> Inl InvalidFilterSpec) \<longrightarrow>
      filter_sig L sig rate lc hc ord \<noteq> Inl InvalidFilterSpec)"
proof (intro conjI impI)
  assume "rate \<noteq> 0 \<and> butter L ord [2 * lc / of_int rate, 2 * hc / of_int rate] = Inl e"
  then show "filter_sig L sig rate lc hc ord = Inl e"
    by (simp add: filter_sig_def)
next
  assume lib: "(\<forall>k w. butter L k w \<noteq> Inl InvalidFilterSpec)
        \<and> (\<forall>k q. cosine_taper L k q \<noteq> Inl InvalidFilterSpec)
        \<and> (\<forall>b a x. lfilter L b a x \<noteq> Inl InvalidFilterSpec)"
  show "filter_sig L sig rate lc hc ord \<noteq> Inl InvalidFilterSpec"
  proof
    assume f: "filter_sig L sig rate lc hc ord = Inl InvalidFilterSpec"
    have r: "rate \<noteq> 0"
    proof
      assume "rate = 0"
      with f show False by (simp add: filter_sig_def)
    qed
    let ?d = "butter L ord [2 * lc / of_int rate, 2 * hc / of_int rate]"
    have f': "bind_res ?d (\<lambda>(b1, a1). mapM_res (filter_row L b1 a1) sig) = Inl InvalidFilterSpec"
      using f r by (simp add: filter_sig_def)
    show False
    proof (cases ?d)
      case (Inl e1)
      with f' have "?d = Inl InvalidFilterSpec" by simp
      with lib show False by blast
    next
      case (Inr c)
      obtain b1 a1 where c: "c = (b1, a1)" by (cases c)
      from f' Inr c have "mapM_res (filter_row L b1 a1) sig = Inl InvalidFilterSpec"
        by simp
      then obtain row where "filter_row L b1 a1 row = Inl InvalidFilterSpec"
        using mapM_res_Inl by blast
      from filter_row_Inl [OF this] have
        "(\<exists>k q. cosine_taper L k q = Inl InvalidFilterSpec)
           \<or> (\<exists>x. lfilter L b1 a1 x = Inl InvalidFilterSpec)"
        by simp
      with lib show False by blast
    qed
  qed
qed

lemma example_invalid_design:
  "butter std_lib 2 [2 * 2 / of_int 50, 2 * 30 / of_int 50] = Inl ValueError"
  by (simp add: std_lib_def range_checked_design_def)

lemma std_lib_no_invalid_filter_spec:
  "butter std_lib k w \<noteq> Inl InvalidFilterSpec"
  "cosine_taper std_lib n q \<noteq> Inl InvalidFilterSpec"
  "lfilter std_lib b a x \<noteq> Inl InvalidFilterSpec"
  by (simp_all add: std_lib_def range_checked_design_def unit_taper_def std_lfilter_def)

theorem filter_no_validation_witness:
  "(50::int) \<noteq> 0
   \<and> butter std_lib 2 [2 * 2 / of_int 50, 2 * 30 / of_int 50] = Inl ValueError
   \<and> filter_sig std_lib [[1, 2, 3]] 50 2 30 2 = Inl ValueError
   \<and> filter_sig std_lib [[1, 2, 3]] 50 2 30 2 \<noteq> Inl InvalidFilterSpec"
proof -
  note t = filter_no_validation [of 50 std_lib 2 2 30 ValueError "[[1, 2, 3]]"]
  have r: "(50::int) \<noteq> 0" by simp
  have a: "filter_sig std_lib [[1, 2, 3]] 50 2 30 2 = Inl ValueError"
    using t r example_invalid_design by blast
  have b: "filter_sig std_lib [[1, 2, 3]] 50 2 30 2 \<noteq> Inl InvalidFilterSpec"
    using t std_lib_no_invalid_filter_spec by blast
  show ?thesis
    by (intro conjI) (rule r example_invalid_design a b)+
qed

text \<open>
  A high corner of 30 Hz at 50 Hz sampling is above the Nyquist frequency. With a design
  routine that checks the range of the critical frequencies as scipy does, the caller
  sees that routine's ValueError, not \<open>InvalidFilterSpec\<close>.
\<close>

theorem filter_invalid_spec_counterexample:
  "(30::real) \<ge> of_int 50 / 2
   \<and> filter_sig std_lib [[1, 2, 3]] 50 2 30 2 = Inl ValueError
   \<and> filter_sig std_lib [[1, 2, 3]] 50 2 30 2 \<noteq> Inl InvalidFilterSpec"
  by (simp add: filter_sig_def std_lib_def range_checked_design_def)

subsection \<open>The pad properties\<close>

text \<open>
  Claim C7. Reading \<open>pre_pad\<close> returns \<open>max(p_long, s_long) + 3 * max(p_short, s_short)\<close>
  for every pair of configured windows, whatever was assigned through the setter, and
  1.6 for the default windows (0.2, 1.0).
\<close>

theorem pre_pad_formula:
  "pre_pad (self\<lparr>p_onset_win := (p_short, p_long), s_onset_win := (s_short, s_long)\<rparr>)
     = max p_long s_long + 3 * max p_short s_short
   \<and> pre_pad (pre_pad_setter self v) = pre_pad self
   \<and> pre_pad (ClassicSTALTAOnset_init rate) = 16 / 10"
  by (simp add: pre_pad_def pre_pad_setter_def ClassicSTALTAOnset_init_def)

text \<open>
  Claim C8. After \<open>ttmax\<close> has been assigned to \<open>post_pad\<close>, reading \<open>post_pad\<close> returns
  \<open>ceil(ttmax + 2 * max(p_long, s_long))\<close>; with the default windows and \<open>ttmax = 10\<close>
  that is 12.
\<close>

theorem post_pad_after_setter:
  "post_pad (post_pad_setter self ttmax)
     = Inr (of_int \<lceil>ttmax + 2 * max (snd (p_onset_win self)) (snd (s_onset_win self))\<rceil>)
   \<and> post_pad (post_pad_setter (ClassicSTALTAOnset_init rate) 10) = Inr 12"
  by (simp add: post_pad_def post_pad_setter_def ClassicSTALTAOnset_init_def Let_def)


end
